theory Spec2Isabelle
  imports Complex_Main "HOL-Library.Sublist"
begin

section \<open>Python string primitives\<close>

text \<open>
  A Python \<open>str\<close> is modelled as a \<open>string\<close> whose characters are read as the code
  points 0 to 255 (the Latin-1 range of Unicode). On that range \<open>str.lower\<close>,
  \<open>str.split\<close>, \<open>str.strip\<close>, \<open>in\<close>, \<open>startswith\<close> and \<open>count\<close> are as below.
\<close>

definition is_space :: "char \<Rightarrow> bool" where
  \<comment> \<open>the characters \<open>str.isspace\<close> accepts: TAB to CR, FS to US, SPACE, NEL, NBSP\<close>
  "is_space c =
     (let n = (of_char c :: nat)
      in (9 \<le> n \<and> n \<le> 13) \<or> (28 \<le> n \<and> n \<le> 32) \<or> n = 133 \<or> n = 160)"

definition lower_char :: "char \<Rightarrow> char" where
  \<comment> \<open>\<open>A\<close> to \<open>Z\<close>, and the Latin-1 capitals U+00C0 to U+00DE except the sign U+00D7\<close>
  "lower_char c =
     (let n = (of_char c :: nat)
      in if (65 \<le> n \<and> n \<le> 90) \<or> (192 \<le> n \<and> n \<le> 222 \<and> n \<noteq> 215)
         then char_of (n + 32) else c)"

definition lower :: "string \<Rightarrow> string" where
  "lower s = map lower_char s"

fun startswith :: "string \<Rightarrow> string \<Rightarrow> bool" where
  \<comment> \<open>\<open>startswith s p\<close> is \<open>s.startswith(p)\<close>\<close>
  "startswith s [] = True"
| "startswith [] (p # ps) = False"
| "startswith (c # cs) (p # ps) = (c = p \<and> startswith cs ps)"

fun py_in :: "string \<Rightarrow> string \<Rightarrow> bool" where
  \<comment> \<open>\<open>py_in sub s\<close> is \<open>sub in s\<close>\<close>
  "py_in sub [] = (sub = [])"
| "py_in sub (c # cs) = (startswith (c # cs) sub \<or> py_in sub cs)"

fun split_ws_aux :: "string \<Rightarrow> string \<Rightarrow> string list" where
  "split_ws_aux word [] = (if word = [] then [] else [word])"
| "split_ws_aux word (c # cs) =
     (if is_space c
      then (if word = [] then split_ws_aux [] cs else word # split_ws_aux [] cs)
      else split_ws_aux (word @ [c]) cs)"

definition split_ws :: "string \<Rightarrow> string list" where
  \<comment> \<open>\<open>s.split()\<close>: the maximal runs of non-whitespace characters\<close>
  "split_ws s = split_ws_aux [] s"

definition strip :: "string \<Rightarrow> string" where
  \<comment> \<open>\<open>s.strip()\<close>: leading and trailing whitespace removed\<close>
  "strip s = rev (dropWhile is_space (rev (dropWhile is_space s)))"

fun py_join :: "string \<Rightarrow> string list \<Rightarrow> string" where
  \<comment> \<open>\<open>py_join sep parts\<close> is \<open>sep.join(parts)\<close>\<close>
  "py_join sep [] = []"
| "py_join sep [x] = x"
| "py_join sep (x # y # ys) = x @ sep @ py_join sep (y # ys)"

fun split_aux :: "string \<Rightarrow> string \<Rightarrow> string \<Rightarrow> string list" where
  \<comment> \<open>left to right, cutting at each occurrence of \<open>sep\<close> that does not overlap the one before\<close>
  "split_aux sep part [] = [part]"
| "split_aux sep part (c # cs) =
     (if sep \<noteq> [] \<and> startswith (c # cs) sep
      then part # split_aux sep [] (drop (length sep) (c # cs))
      else split_aux sep (part @ [c]) cs)"

definition py_split :: "string \<Rightarrow> string \<Rightarrow> string list" where
  \<comment> \<open>\<open>py_split s sep\<close> is \<open>s.split(sep)\<close> for a non-empty \<open>sep\<close> (every separator of
      the source is a non-empty literal; Python raises ValueError on an empty one)\<close>
  "py_split s sep = split_aux sep [] s"

fun py_count :: "string \<Rightarrow> string \<Rightarrow> nat" where
  \<comment> \<open>\<open>py_count s sub\<close> is \<open>s.count(sub)\<close> for a non-empty \<open>sub\<close>: occurrences that do not overlap\<close>
  "py_count [] sub = 0"
| "py_count (c # cs) sub =
     (if sub \<noteq> [] \<and> startswith (c # cs) sub
      then Suc (py_count (drop (length sub) (c # cs)) sub)
      else py_count cs sub)"

definition digit_char :: "nat \<Rightarrow> char" where
  "digit_char d = char_of (48 + d)"

fun str_nat :: "nat \<Rightarrow> string" where
  "str_nat n = (if n < 10 then [digit_char n] else str_nat (n div 10) @ [digit_char (n mod 10)])"

definition str_int :: "int \<Rightarrow> string" where
  \<comment> \<open>\<open>str(i)\<close> of a Python integer\<close>
  "str_int i = (if i < 0 then CHR ''-'' # str_nat (nat (- i)) else str_nat (nat i))"

section \<open>JSON encoding\<close>

text \<open>
  \<open>json.dumps\<close> with its defaults: separators \<open>", "\<close> and \<open>": "\<close>, dictionaries in
  insertion order, \<open>ensure_ascii\<close> on (every character outside SPACE to \<open>~\<close> is escaped).
\<close>

datatype json =
    JString string
  | JInt int
  | JArray "json list"
  | JObject "(string \<times> json) list"

definition hex_digit :: "nat \<Rightarrow> char" where
  "hex_digit d = (if d < 10 then char_of (48 + d) else char_of (87 + d))"

definition json_escape_char :: "char \<Rightarrow> string" where
  "json_escape_char c =
     (let n = (of_char c :: nat)
      in if c = CHR 0x22 then [CHR 0x5C, CHR 0x22]
         else if c = CHR 0x5C then [CHR 0x5C, CHR 0x5C]
         else if n = 10 then [CHR 0x5C, CHR ''n'']
         else if n = 13 then [CHR 0x5C, CHR ''r'']
         else if n = 9 then [CHR 0x5C, CHR ''t'']
         else if n = 12 then [CHR 0x5C, CHR ''f'']
         else if n = 8 then [CHR 0x5C, CHR ''b'']
         else if 32 \<le> n \<and> n \<le> 126 then [c]
         else [CHR 0x5C, CHR ''u'', CHR ''0'', CHR ''0'', hex_digit (n div 16), hex_digit (n mod 16)])"

definition json_string :: "string \<Rightarrow> string" where
  "json_string s = [CHR 0x22] @ concat (map json_escape_char s) @ [CHR 0x22]"

fun json_dumps :: "json \<Rightarrow> string" where
  "json_dumps (JString s) = json_string s"
| "json_dumps (JInt i) = str_int i"
| "json_dumps (JArray xs) = ''['' @ py_join '', '' (map json_dumps xs) @ '']''"
| "json_dumps (JObject kvs) =
     ''{'' @ py_join '', '' (map (\<lambda>kv. json_string (fst kv) @ '': '' @ json_dumps (snd kv)) kvs) @ ''}''"

section \<open>Messages\<close>

text \<open>
  A message is a dictionary read with \<open>msg.get('role', ...)\<close> and \<open>msg.get('content', ...)\<close>;
  \<open>None\<close> stands for an absent key.
\<close>

record message =
  role :: "string option"
  content :: "string option"

definition user_msg :: "string \<Rightarrow> message" where
  "user_msg text = \<lparr>role = Some ''user'', content = Some text\<rparr>"

definition assistant_msg :: "string \<Rightarrow> message" where
  "assistant_msg text = \<lparr>role = Some ''assistant'', content = Some text\<rparr>"

section \<open>The conversation adapter: customer-id extraction\<close>

fun find_after_cust :: "string list \<Rightarrow> string option" where
  \<comment> \<open>the inner loop over \<open>enumerate(words)\<close>: \<open>i + 1 < len(words)\<close> is a next word\<close>
  "find_after_cust [] = None"
| "find_after_cust [word] = None"
| "find_after_cust (word # nxt # ws) =
     (if py_in ''cust'' word then Some nxt else find_after_cust (nxt # ws))"

fun extract_customer_id :: "message list \<Rightarrow> string" where
  "extract_customer_id [] = ''CUST001''"
| "extract_customer_id (msg # msgs) =
     (case content msg of
        None \<Rightarrow> extract_customer_id msgs
      | Some text \<Rightarrow>
          (let content = lower text
           in if py_in ''customer id'' content \<or> py_in ''cust'' content
              then (case find_after_cust (split_ws content) of
                      Some w \<Rightarrow> w
                    | None \<Rightarrow> extract_customer_id msgs)
              else extract_customer_id msgs))"

section \<open>The conversation adapter: state and externals\<close>

text \<open>
  An exception is its class and its text \<open>str(e)\<close>. \<open>Exception\<close> and \<open>KeyError\<close> are
  instances of class \<open>Exception\<close>; \<open>BaseException\<close> stands for the exceptions that are not
  (\<open>SystemExit\<close>, \<open>KeyboardInterrupt\<close>, \<open>asyncio.CancelledError\<close>), which the handler
  \<open>except Exception\<close> of \<open>CrewAIAdapter.call\<close> does not catch.
\<close>

datatype exn = Exception string | KeyError string | BaseException string

fun exn_str :: "exn \<Rightarrow> string" where
  \<comment> \<open>\<open>str(e)\<close>; the text of a KeyError is its key between quotes (a plain key)\<close>
  "exn_str (Exception text) = text"
| "exn_str (KeyError k) = [CHR 0x27] @ k @ [CHR 0x27]"
| "exn_str (BaseException text) = text"

fun is_Exception :: "exn \<Rightarrow> bool" where
  \<comment> \<open>\<open>isinstance(e, Exception)\<close>\<close>
  "is_Exception (Exception text) = True"
| "is_Exception (KeyError k) = True"
| "is_Exception (BaseException text) = False"

text \<open>
  The crew is the external responder. \<open>handle_inquiry\<close> acts on the world outside the
  adapter (of any type \<open>'w\<close>: for a mocked responder, the record of its calls): given the
  inquiry, the customer id and the world before, it returns the reply or raises, and
  the world after. \<open>get_crew_info\<close> is the dictionary of agents, process and tools.
\<close>

record 'w crew =
  handle_inquiry :: "string \<Rightarrow> string \<Rightarrow> 'w \<Rightarrow> (exn + string) \<times> 'w"
  get_crew_info :: json

text \<open>
  One entry of \<open>conversation_history\<close>: the dictionary with the keys \<open>crew\<close>, \<open>messages\<close>
  and \<open>context\<close>.
\<close>

record 'w thread_state =
  tc_crew :: "'w crew"
  tc_messages :: "message list"
  tc_context :: "string \<rightharpoonup> string"

text \<open>
  The adapter. \<open>crew_class\<close> is the outcome of the constructor call
  \<open>self.crew_class(**self.crew_kwargs)\<close>.
\<close>

record 'w adapter =
  crew_class :: "exn + 'w crew"
  conversation_history :: "string \<rightharpoonup> 'w thread_state"

text \<open>
  The input that the scenario library passes to the adapter. \<open>last_new_user_message_str\<close> is the outcome of the
  library's method of that name, which returns the text or raises.
\<close>

record agent_input =
  messages :: "message list"
  new_messages :: "message list"
  thread_id :: string
  judgment_request :: bool
  last_new_user_message_str :: "exn + string"

definition init_adapter :: "exn + 'w crew \<Rightarrow> 'w adapter" where
  \<comment> \<open>\<open>__init__\<close>: an empty \<open>conversation_history\<close>\<close>
  "init_adapter cls = \<lparr>crew_class = cls, conversation_history = Map.empty\<rparr>"

section \<open>The conversation adapter: operations\<close>

definition get_or_create_crew :: "'w adapter \<Rightarrow> string \<Rightarrow> (exn + 'w crew) \<times> 'w adapter" where
  "get_or_create_crew a tid =
     (case conversation_history a tid of
        Some tc \<Rightarrow> (Inr (tc_crew tc), a)
      | None \<Rightarrow>
          (case crew_class a of
             Inl e \<Rightarrow> (Inl e, a)
           | Inr c \<Rightarrow>
               (Inr c,
                a\<lparr>conversation_history := (conversation_history a)
                     (tid \<mapsto> \<lparr>tc_crew = c, tc_messages = [], tc_context = Map.empty\<rparr>)\<rparr>)))"

fun context_parts :: "message list \<Rightarrow> string list" where
  "context_parts [] = []"
| "context_parts (msg # msgs) =
     (let role = (case role msg of None \<Rightarrow> ''unknown'' | Some r \<Rightarrow> r);
          content = (case content msg of None \<Rightarrow> [] | Some c \<Rightarrow> c)
      in if role = ''user'' then (''Customer: '' @ content) # context_parts msgs
         else if role = ''assistant'' then (''Agent: '' @ content) # context_parts msgs
         else if role = ''system'' then (''System: '' @ content) # context_parts msgs
         else context_parts msgs)"

definition format_conversation_context :: "message list \<Rightarrow> string" where
  "format_conversation_context msgs = py_join ''\<newline>'' (context_parts msgs)"

definition skip_phrases :: "string list" where
  "skip_phrases = [''agent:'', ''task:'', ''crew:'', ''executing'', ''delegating'', ''final answer:'']"

definition is_log_line :: "string \<Rightarrow> bool" where
  \<comment> \<open>\<open>any(skip_phrase in line.lower() for skip_phrase in [...])\<close>\<close>
  "is_log_line line = list_ex (\<lambda>skip_phrase. py_in skip_phrase (lower line)) skip_phrases"

fun clean_lines :: "string list \<Rightarrow> string list" where
  \<comment> \<open>the loop over \<open>lines\<close> that fills \<open>cleaned_lines\<close>\<close>
  "clean_lines [] = []"
| "clean_lines (line # lines) =
     (if is_log_line line then clean_lines lines
      else if strip line \<noteq> [] \<and> \<not> startswith line ''['' \<and> \<not> startswith line ''##''
           then strip line # clean_lines lines
           else clean_lines lines)"

definition format_crew_response :: "string \<Rightarrow> string" where
  "format_crew_response response =
     (let lines = py_split response ''\<newline>'';
          cleaned_lines = clean_lines lines
      in if cleaned_lines \<noteq> [] then py_join ''\<newline>'' cleaned_lines else response)"

definition handle_judgment_request :: "agent_input \<Rightarrow> 'w thread_state \<Rightarrow> string" where
  \<comment> \<open>the key \<open>crew\<close> is in every entry, so \<open>crew_info\<close> is always the crew's\<close>
  "handle_judgment_request inp thread_context =
     (let conversation = format_conversation_context (messages inp)
      in json_dumps (JObject
           [(''conversation_summary'', JString conversation),
            (''total_messages'', JInt (int (length (messages inp)))),
            (''customer_id'',
               JString (case tc_context thread_context ''customer_id'' of
                          None \<Rightarrow> ''unknown'' | Some v \<Rightarrow> v)),
            (''last_response'',
               JString (case tc_context thread_context ''last_response'' of
                          None \<Rightarrow> [] | Some v \<Rightarrow> v)),
            (''crew_info'', get_crew_info (tc_crew thread_context))]))"

text \<open>
  \<open>call\<close> takes the adapter, the input and the world before, and returns its outcome, the
  adapter after and the world after. The outcome \<open>Inr\<close> is the returned string; \<open>Inl\<close> is
  an exception that leaves the operation.
\<close>

definition call_body ::
  "'w adapter \<Rightarrow> agent_input \<Rightarrow> 'w \<Rightarrow> (exn + string) \<times> 'w adapter \<times> 'w" where
  \<comment> \<open>the \<open>try\<close> block of \<open>call\<close>: \<open>Inl\<close> is an exception that leaves the block\<close>
  "call_body a inp w =
     (case get_or_create_crew a (thread_id inp) of
        (Inl e, a1) \<Rightarrow> (Inl e, a1, w)
      | (Inr crew, a1) \<Rightarrow>
          (case last_new_user_message_str inp of
             Inl e \<Rightarrow> (Inl e, a1, w)
           | Inr user_message \<Rightarrow>
               (let customer_id = extract_customer_id (messages inp)
                in case conversation_history a1 (thread_id inp) of
                     None \<Rightarrow> (Inl (KeyError (thread_id inp)), a1, w)
                   | Some tc0 \<Rightarrow>
                       (let thread_context = tc0\<lparr>tc_messages := tc_messages tc0 @ new_messages inp\<rparr>;
                            a2 = a1\<lparr>conversation_history :=
                                     (conversation_history a1)(thread_id inp \<mapsto> thread_context)\<rparr>
                        in if judgment_request inp
                           then (Inr (handle_judgment_request inp thread_context), a2, w)
                           else
                             (case handle_inquiry crew user_message customer_id w of
                                (Inl e, w') \<Rightarrow> (Inl e, a2, w')
                              | (Inr response, w') \<Rightarrow>
                                  (let formatted_response = format_crew_response response;
                                       thread_context' = thread_context\<lparr>tc_context :=
                                         (tc_context thread_context)
                                           (''last_response'' \<mapsto> formatted_response,
                                            ''customer_id'' \<mapsto> customer_id)\<rparr>
                                   in (Inr formatted_response,
                                       a2\<lparr>conversation_history :=
                                            (conversation_history a2)
                                              (thread_id inp \<mapsto> thread_context')\<rparr>,
                                       w')))))))"

definition apology :: "exn \<Rightarrow> string" where
  \<comment> \<open>the string the \<open>except\<close> clause returns\<close>
  "apology e =
     ''I apologize, but I encountered an error while processing your request. '' @
     ''Please try again or contact support if the issue persists. Error: '' @
     (''Error in CrewAI adapter: '' @ exn_str e)"

definition call ::
  "'w adapter \<Rightarrow> agent_input \<Rightarrow> 'w \<Rightarrow> (exn + string) \<times> 'w adapter \<times> 'w" where
  \<comment> \<open>\<open>except Exception as e\<close>: an exception of class \<open>Exception\<close> becomes the apology,
      any other exception leaves \<open>call\<close>\<close>
  "call a inp w =
     (case call_body a inp w of
        (Inl e, a', w') \<Rightarrow>
          (if is_Exception e then (Inr (apology e), a', w') else (Inl e, a', w'))
      | (Inr r, a', w') \<Rightarrow> (Inr r, a', w'))"

abbreviation outcome :: "(exn + string) \<times> 'w adapter \<times> 'w \<Rightarrow> exn + string" where
  "outcome r \<equiv> fst r"

abbreviation adapter_after :: "(exn + string) \<times> 'w adapter \<times> 'w \<Rightarrow> 'w adapter" where
  "adapter_after r \<equiv> fst (snd r)"

abbreviation world_after :: "(exn + string) \<times> 'w adapter \<times> 'w \<Rightarrow> 'w" where
  "world_after r \<equiv> snd (snd r)"

definition stored_messages :: "'w adapter \<Rightarrow> string \<Rightarrow> message list" where
  \<comment> \<open>the stored message list of a thread; empty for a thread id not in the history\<close>
  "stored_messages a tid =
     (case conversation_history a tid of None \<Rightarrow> [] | Some tc \<Rightarrow> tc_messages tc)"

section \<open>Example crews and inputs\<close>

definition mock_crew :: "(string \<Rightarrow> string \<Rightarrow> exn + string) \<Rightarrow> ((string \<times> string) list) crew" where
  \<comment> \<open>a mocked responder: the world is the list of its calls, one pair of arguments each\<close>
  "mock_crew reply =
     \<lparr>handle_inquiry = (\<lambda>inquiry customer_id calls.
                           (reply inquiry customer_id, calls @ [(inquiry, customer_id)])),
      get_crew_info = JObject []\<rparr>"

definition echo_crew :: "((string \<times> string) list) crew" where
  \<comment> \<open>it answers with a log line and a greeting\<close>
  "echo_crew = mock_crew (\<lambda>inquiry customer_id. Inr (''Agent: working\<newline>Hello '' @ customer_id))"

definition failing_crew :: "((string \<times> string) list) crew" where
  \<comment> \<open>it raises an exception of class \<open>Exception\<close> on every inquiry\<close>
  "failing_crew = mock_crew (\<lambda>inquiry customer_id. Inl (Exception ''rate limit''))"


definition turn :: "string \<Rightarrow> string \<Rightarrow> bool \<Rightarrow> agent_input" where
  \<comment> \<open>an input with one new user message, which is also the whole message list\<close>
  "turn tid text judgment =
     \<lparr>messages = [user_msg text], new_messages = [user_msg text], thread_id = tid,
      judgment_request = judgment, last_new_user_message_str = Inr text\<rparr>"

definition assistant_turn :: "string \<Rightarrow> string \<Rightarrow> agent_input" where
  \<comment> \<open>an input whose one new message is an assistant message: the scenario library finds no new
      user message and \<open>last_new_user_message_str\<close> raises\<close>
  "assistant_turn tid text =
     \<lparr>messages = [assistant_msg text], new_messages = [assistant_msg text], thread_id = tid,
      judgment_request = False,
      last_new_user_message_str = Inl (Exception ''No new user messages found'')\<rparr>"

section \<open>The service-quality judge\<close>

fun quality_parts :: "message list \<Rightarrow> string list" where
  "quality_parts [] = []"
| "quality_parts (msg # msgs) =
     (let role = (case role msg of None \<Rightarrow> ''unknown'' | Some r \<Rightarrow> r);
          content = (case content msg of None \<Rightarrow> [] | Some c \<Rightarrow> c)
      in if role = ''user'' then (''CUSTOMER: '' @ content) # quality_parts msgs
         else if role = ''assistant'' then (''AGENT: '' @ content) # quality_parts msgs
         else quality_parts msgs)"

definition quality_extract_conversation :: "message list \<Rightarrow> string" where
  \<comment> \<open>\<open>CustomerServiceQualityJudge._extract_conversation\<close>\<close>
  "quality_extract_conversation msgs = py_join ''\<newline>\<newline>'' (quality_parts msgs)"

text \<open>
  Scores are Python floats, modelled as reals: sums of the literals, clamped by \<open>min\<close> and
  \<open>max\<close>. The mean word count of \<open>evaluate_communication\<close> is the quotient of two
  integers; against the integer bounds 5, 10, 50 and 100 the float quotient and the real
  one compare alike for fewer than \<open>10^13\<close> spans. The loop shared by the keyword scorers:
  \<open>for indicator in indicators: if indicator.lower() in conversation.lower(): score += step\<close>.
\<close>

fun score_indicators :: "string list \<Rightarrow> real \<Rightarrow> string \<Rightarrow> real \<Rightarrow> real" where
  "score_indicators [] step conversation score = score"
| "score_indicators (indicator # indicators) step conversation score =
     score_indicators indicators step conversation
       (if py_in (lower indicator) (lower conversation) then score + step else score)"

definition evaluate_empathy :: "string \<Rightarrow> real" where
  "evaluate_empathy conversation =
     (let empathy_indicators =
            [''understand'', ''sorry'', ''apologize'', ''frustrating'', ''difficult'',
             ''appreciate'', ''thank you'', ''I can see'', ''I realize''];
          score = score_indicators empathy_indicators 0.5 conversation 5.0
      in min 10.0 score)"

definition evaluate_professionalism :: "string \<Rightarrow> real" where
  "evaluate_professionalism conversation =
     (let professional_indicators =
            [''please'', ''thank you'', [CHR ''I'', CHR 0x27] @ ''ll help'', ''let me'', ''I can assist''];
          unprofessional_indicators =
            [''whatever'', ''I don'' @ [CHR 0x27] @ ''t know'', ''not my problem'',
             ''can'' @ [CHR 0x27] @ ''t help''];
          score = score_indicators professional_indicators 0.3 conversation 7.0;
          score = score_indicators unprofessional_indicators (- 1.0) conversation score
      in max 1.0 (min 10.0 score))"

text \<open>
  \<open>re.findall(r'AGENT: (.+?)(?=CUSTOMER:|$)', conversation, re.DOTALL)\<close>: at the leftmost
  \<open>AGENT: \<close> that has a character after it, the group takes that character and then as few
  more as possible, up to the first position where \<open>CUSTOMER:\<close> starts or the text ends
  (\<open>$\<close> also holds just before a final newline); the search resumes where the group ends.
\<close>

definition lookahead :: "string \<Rightarrow> bool" where
  "lookahead rest = (startswith rest ''CUSTOMER:'' \<or> rest = [] \<or> rest = ''\<newline>'')"

fun lazy_span :: "string \<Rightarrow> string \<Rightarrow> string \<times> string" where
  "lazy_span grp [] = (grp, [])"
| "lazy_span grp (c # cs) =
     (if lookahead (c # cs) then (grp, c # cs) else lazy_span (grp @ [c]) cs)"

lemma lazy_span_length: "length (snd (lazy_span grp s)) \<le> length s"
  by (induction s arbitrary: grp) (auto intro: le_SucI)

function findall_agent :: "string \<Rightarrow> string list" where
  "findall_agent [] = []"
| "findall_agent (c # cs) =
     (if startswith (c # cs) ''AGENT: ''
      then (case drop 7 (c # cs) of
              [] \<Rightarrow> findall_agent cs
            | d # ds \<Rightarrow> fst (lazy_span [d] ds) # findall_agent (snd (lazy_span [d] ds)))
      else findall_agent cs)"
  by pat_completeness auto
termination
proof (relation "measure length")
  fix c d :: char and cs ds :: string
  assume "drop 7 (c # cs) = d # ds"
  then have "length (d # ds) \<le> length (c # cs)"
    by (metis diff_le_self length_drop)
  moreover have "length (snd (lazy_span [d] ds)) \<le> length ds"
    by (rule lazy_span_length)
  ultimately show "(snd (lazy_span [d] ds), c # cs) \<in> measure length"
    by simp
qed simp_all

definition evaluate_communication :: "string \<Rightarrow> real" where
  "evaluate_communication conversation =
     (let agent_responses = findall_agent conversation
      in if agent_responses = [] then 5.0
         else
           (let avg_length =
                  real (sum_list (map (\<lambda>response. length (split_ws response)) agent_responses))
                    / real (length agent_responses)
            in if 10 \<le> avg_length \<and> avg_length \<le> 50 then 8.0
               else if (5 \<le> avg_length \<and> avg_length < 10) \<or> (50 < avg_length \<and> avg_length \<le> 100)
                    then 6.0
                    else 4.0))"

definition evaluate_listening :: "string \<Rightarrow> real" where
  "evaluate_listening conversation =
     (let listening_indicators =
            [''you mentioned'', ''you said'', ''I understand that'', ''to clarify'',
             ''let me make sure'', ''if I understand correctly''];
          score = score_indicators listening_indicators 0.5 conversation 6.0
      in min 10.0 score)"

definition evaluate_problem_solving :: "string \<Rightarrow> real" where
  "evaluate_problem_solving conversation =
     (let problem_solving_indicators =
            [''let me check'', [CHR ''I'', CHR 0x27] @ ''ll investigate'',
             ''here'' @ [CHR 0x27] @ ''s what we can do'',
             ''solution'', ''resolve'', ''fix'', ''help you with''];
          score = score_indicators problem_solving_indicators 0.4 conversation 5.0
      in min 10.0 score)"

definition evaluate_customer_focus :: "string \<Rightarrow> real" where
  "evaluate_customer_focus conversation =
     (let customer_focus_indicators =
            [''for you'', ''your needs'', ''your experience'', ''your satisfaction'',
             ''what works best'', ''your preference''];
          score = score_indicators customer_focus_indicators 0.3 conversation 6.0
      in min 10.0 score)"

section \<open>The technical-accuracy judge\<close>

definition evaluate_technical_accuracy :: "string \<Rightarrow> real" where
  "evaluate_technical_accuracy conversation =
     (let technical_terms =
            [''API'', ''authentication'', ''error'', ''code'', ''integration'', ''configuration''];
          score = score_indicators technical_terms 0.2 conversation 7.0;
          score = (if py_in ''restart your computer'' (lower conversation) \<and> py_in ''API'' conversation
                   then score - 2.0 else score)
      in max 1.0 (min 10.0 score))"

definition evaluate_solution_quality :: "string \<Rightarrow> real" where
  "evaluate_solution_quality conversation =
     (let solution_indicators =
            [''step by step'', ''first'', ''then'', ''next'', ''finally'',
             ''check'', ''verify'', ''test'', ''try''];
          score = score_indicators solution_indicators 0.3 conversation 6.0
      in min 10.0 score)"

definition evaluate_guidance_clarity :: "string \<Rightarrow> real" where
  "evaluate_guidance_clarity conversation =
     (let clarity_indicators =
            [''here'' @ [CHR 0x27] @ ''s how'', ''follow these steps'', ''you need to'',
             ''make sure'', ''ensure that'', ''double-check''];
          score = score_indicators clarity_indicators 0.4 conversation 6.0
      in min 10.0 score)"

section \<open>The escalation judge\<close>

fun role_content_lines :: "message list \<Rightarrow> string list" where
  \<comment> \<open>the list \<open>[f"{msg.get('role', 'unknown')}: {msg.get('content', '')}" for msg in messages]\<close>\<close>
  "role_content_lines [] = []"
| "role_content_lines (msg # msgs) =
     ((case role msg of None \<Rightarrow> ''unknown'' | Some r \<Rightarrow> r) @ '': '' @
      (case content msg of None \<Rightarrow> [] | Some c \<Rightarrow> c)) # role_content_lines msgs"

definition escalation_extract_conversation :: "message list \<Rightarrow> string" where
  \<comment> \<open>\<open>EscalationAppropriatenessJudge._extract_conversation\<close>\<close>
  "escalation_extract_conversation msgs = py_join ''\<newline>'' (role_content_lines msgs)"

record escalation_need =
  escalation_warranted :: bool
  triggers_identified :: "string list"
  severity_level :: string

definition assess_escalation_need :: "string \<Rightarrow> escalation_need" where
  "assess_escalation_need conversation =
     (let escalation_triggers =
            [''manager'', ''supervisor'', ''escalate'', ''higher level'',
             ''weeks'', ''months'', ''frustrated'', ''angry'', ''unacceptable''];
          triggers_found = filter (\<lambda>trigger. py_in trigger (lower conversation)) escalation_triggers
      in \<lparr>escalation_warranted = (length triggers_found \<ge> 2),
          triggers_identified = triggers_found,
          severity_level = (if length triggers_found \<ge> 3 then ''high''
                            else if length triggers_found \<ge> 1 then ''medium'' else ''low'')\<rparr>)"

definition evaluate_escalation_timing :: "string \<Rightarrow> string" where
  "evaluate_escalation_timing conversation =
     (if py_in ''manager'' (lower conversation)
      then (case py_split conversation ''manager'' of
              pre_escalation # _ # _ \<Rightarrow>
                (let interaction_count = py_count pre_escalation ''AGENT:''
                 in if interaction_count \<le> 2 then ''Too early - should attempt resolution first''
                    else if interaction_count \<le> 5 then ''Appropriate timing''
                    else ''Too late - should have escalated sooner'')
            | _ \<Rightarrow> ''No escalation occurred'')
      else ''No escalation occurred'')"

definition evaluate_escalation_process :: "string \<Rightarrow> (string \<times> bool) list" where
  "evaluate_escalation_process conversation =
     [(''explanation_provided'',
         py_in ''escalate'' (lower conversation) \<or> py_in ''manager'' (lower conversation)),
      (''expectations_set'',
         py_in ''will contact'' (lower conversation) \<or> py_in ''within'' (lower conversation)),
      (''information_gathered'',
         py_in ''account'' (lower conversation) \<or> py_in ''details'' (lower conversation)),
      (''professional_handoff'',
         py_in ''transfer'' (lower conversation) \<or> py_in ''connect'' (lower conversation))]"

definition calculate_escalation_score :: "string \<Rightarrow> real" where
  "calculate_escalation_score conversation =
     (let need_assessment = assess_escalation_need conversation;
          timing = evaluate_escalation_timing conversation;
          process = evaluate_escalation_process conversation;
          score = 5.0;
          score = (if escalation_warranted need_assessment \<and> py_in ''manager'' (lower conversation)
                   then score + 2.0
                   else if \<not> escalation_warranted need_assessment
                           \<and> \<not> py_in ''manager'' (lower conversation)
                        then score + 1.0 else score);
          score = (if timing = ''Appropriate timing'' then score + 1.0
                   else if startswith timing ''Too'' then score - 1.0 else score);
          process_score = length (filter snd process);
          score = score + real process_score * 0.5
      in max 1.0 (min 10.0 score))"

section \<open>Turns and word counts\<close>

definition get_content :: "message \<Rightarrow> string" where
  \<comment> \<open>\<open>msg.get('content', '')\<close>\<close>
  "get_content m = (case content m of None \<Rightarrow> [] | Some c \<Rightarrow> c)"

definition in_transcript :: "message \<Rightarrow> bool" where
  \<comment> \<open>the turns: the messages the service-quality transcript includes\<close>
  "in_transcript m \<longleftrightarrow> role m = Some ''user'' \<or> role m = Some ''assistant''"

definition assistant_contents :: "message list \<Rightarrow> string list" where
  \<comment> \<open>the assistant-authored texts of a message list, in order\<close>
  "assistant_contents msgs = map get_content (filter (\<lambda>m. role m = Some ''assistant'') msgs)"

definition word_count :: "string \<Rightarrow> nat" where
  \<comment> \<open>\<open>len(text.split())\<close>\<close>
  "word_count s = length (split_ws s)"

definition turn_part :: "message \<Rightarrow> string" where
  \<comment> \<open>the transcript entry of a turn\<close>
  "turn_part m = (if role m = Some ''user'' then ''CUSTOMER: '' else ''AGENT: '') @ get_content m"

definition thirty_words :: string where
  "thirty_words =
     ''we are so sorry it is on us go to us at no fee to do so as is ok or no we do it as we go on it''"

section \<open>Customer-id extraction\<close>

lemma startswith_prefix: "startswith s p = prefix p s"
  by (induction s p rule: startswith.induct) auto

lemma py_in_sublist: "py_in sub s = sublist sub s"
  by (induction s) (auto simp: startswith_prefix sublist_Cons_right)

lemma split_ws_aux_sublist:
  "w \<in> set (split_ws_aux word s) \<Longrightarrow> sublist w (word @ s)"
proof (induction s arbitrary: word)
  case Nil
  then show ?case by (auto split: if_splits)
next
  case (Cons c cs)
  show ?case
  proof (cases "is_space c")
    case False
    with Cons.prems have "w \<in> set (split_ws_aux (word @ [c]) cs)" by simp
    from Cons.IH[OF this] show ?thesis by simp
  next
    case True
    with Cons.prems have "w = word \<or> w \<in> set (split_ws_aux [] cs)"
      by (auto split: if_splits)
    then show ?thesis
    proof
      assume "w = word" then show ?thesis by simp
    next
      assume "w \<in> set (split_ws_aux [] cs)"
      from Cons.IH[OF this] have "sublist w cs" by simp
      then show ?thesis by (simp add: sublist_append sublist_Cons_right)
    qed
  qed
qed

lemma split_ws_sublist: "w \<in> set (split_ws s) \<Longrightarrow> sublist w s"
  using split_ws_aux_sublist[of w "[]" s] by (simp add: split_ws_def)

lemma find_after_cust_None:
  "(\<forall>i. Suc i < length ws \<longrightarrow> \<not> py_in ''cust'' (ws ! i)) \<Longrightarrow> find_after_cust ws = None"
proof (induction ws rule: find_after_cust.induct)
  case (3 word nxt ws)
  from "3.prems" have a: "\<not> py_in ''cust'' word" by force
  have "\<forall>i. Suc i < length (nxt # ws) \<longrightarrow> \<not> py_in ''cust'' ((nxt # ws) ! i)"
  proof (intro allI impI)
    fix i assume "Suc i < length (nxt # ws)"
    then have "Suc (Suc i) < length (word # nxt # ws)" by simp
    with "3.prems" have "\<not> py_in ''cust'' ((word # nxt # ws) ! Suc i)" by blast
    then show "\<not> py_in ''cust'' ((nxt # ws) ! i)" by simp
  qed
  with 3 a show ?case by simp
qed simp_all

lemma find_after_cust_first:
  "Suc i < length ws \<Longrightarrow> py_in ''cust'' (ws ! i) \<Longrightarrow>
   (\<forall>j<i. \<not> py_in ''cust'' (ws ! j)) \<Longrightarrow> find_after_cust ws = Some (ws ! Suc i)"
proof (induction ws arbitrary: i rule: find_after_cust.induct)
  case (3 word nxt ws)
  show ?case
  proof (cases i)
    case 0
    with "3.prems" show ?thesis by simp
  next
    case (Suc k)
    with "3.prems" have a: "\<not> py_in ''cust'' word" by force
    have b: "Suc k < length (nxt # ws)" using "3.prems" Suc by simp
    have c: "py_in ''cust'' ((nxt # ws) ! k)" using "3.prems" Suc by simp
    have d: "\<forall>j<k. \<not> py_in ''cust'' ((nxt # ws) ! j)"
    proof (intro allI impI)
      fix j assume "j < k"
      then have "Suc j < i" using Suc by simp
      with "3.prems" have "\<not> py_in ''cust'' ((word # nxt # ws) ! Suc j)" by blast
      then show "\<not> py_in ''cust'' ((nxt # ws) ! j)" by simp
    qed
    from "3.IH"[OF a b c d] a Suc show ?thesis by simp
  qed
qed simp_all

lemma find_after_cust_Some_content:
  assumes "find_after_cust (split_ws s) = Some w"
  shows "py_in ''cust'' s"
proof -
  have "\<exists>word \<in> set ws. py_in ''cust'' word" if "find_after_cust ws = Some w" for ws
    using that by (induction ws rule: find_after_cust.induct) (auto split: if_splits)
  from this[OF assms] obtain word where "word \<in> set (split_ws s)" "py_in ''cust'' word" by blast
  then have "sublist ''cust'' word" "sublist word s"
    by (simp_all add: py_in_sublist split_ws_sublist)
  then show ?thesis unfolding py_in_sublist by (rule sublist_order.order_trans)
qed

lemma extract_customer_id_step:
  "extract_customer_id (msg # msgs) =
     (case content msg of None \<Rightarrow> extract_customer_id msgs
      | Some text \<Rightarrow> (case find_after_cust (split_ws (lower text)) of
           Some w \<Rightarrow> w | None \<Rightarrow> extract_customer_id msgs))"
  by (auto simp: Let_def split: option.splits dest: find_after_cust_Some_content)

lemma extract_customer_id_skip:
  assumes "\<forall>m\<in>set pre. \<forall>text. content m = Some text \<longrightarrow>
             (\<forall>i. Suc i < length (split_ws (lower text)) \<longrightarrow>
                  \<not> py_in ''cust'' (split_ws (lower text) ! i))"
  shows "extract_customer_id (pre @ rest) = extract_customer_id rest"
  using assms
proof (induction pre)
  case Nil
  then show ?case by simp
next
  case (Cons m pre)
  have "find_after_cust (split_ws (lower s)) = None" if "content m = Some s" for s
    using Cons.prems that by (intro find_after_cust_None) simp
  moreover have "extract_customer_id (pre @ rest) = extract_customer_id rest"
    using Cons by simp
  ultimately show ?case
    by (simp add: extract_customer_id_step del: extract_customer_id.simps split: option.splits)
qed

text \<open>
  C3, as amended. Customer-id extraction returns the default \<open>CUST001\<close> when no message
  content has, among the whitespace-separated tokens of its lower-cased text, a token
  containing \<open>cust\<close> that is followed by another token. Otherwise it returns, from the
  first message that has one, the token (of the lower-cased text) right after the first
  token containing \<open>cust\<close>. For the single message \<open>my cust id is 4477\<close> the result is
  \<open>id\<close>.
\<close>

theorem extract_customer_id_next_token:
  "((\<forall>m\<in>set msgs. \<forall>text. content m = Some text \<longrightarrow>
        (\<forall>i. Suc i < length (split_ws (lower text)) \<longrightarrow>
             \<not> py_in ''cust'' (split_ws (lower text) ! i)))
      \<longrightarrow> extract_customer_id msgs = ''CUST001'') \<and>
   ((\<forall>m\<in>set pre. \<forall>text. content m = Some text \<longrightarrow>
        (\<forall>i. Suc i < length (split_ws (lower text)) \<longrightarrow>
             \<not> py_in ''cust'' (split_ws (lower text) ! i))) \<and>
    content msg = Some t \<and>
    Suc k < length (split_ws (lower t)) \<and>
    py_in ''cust'' (split_ws (lower t) ! k) \<and>
    (\<forall>j<k. \<not> py_in ''cust'' (split_ws (lower t) ! j))
      \<longrightarrow> extract_customer_id (pre @ msg # post) = split_ws (lower t) ! Suc k) \<and>
   extract_customer_id [\<lparr>role = Some ''user'', content = Some ''my cust id is 4477''\<rparr>] = ''id''"
proof (intro conjI impI)
  assume "\<forall>m\<in>set msgs. \<forall>text. content m = Some text \<longrightarrow>
        (\<forall>i. Suc i < length (split_ws (lower text)) \<longrightarrow>
             \<not> py_in ''cust'' (split_ws (lower text) ! i))"
  from extract_customer_id_skip[OF this, of "[]"]
  show "extract_customer_id msgs = ''CUST001''" by simp
next
  assume a: "(\<forall>m\<in>set pre. \<forall>text. content m = Some text \<longrightarrow>
        (\<forall>i. Suc i < length (split_ws (lower text)) \<longrightarrow>
             \<not> py_in ''cust'' (split_ws (lower text) ! i))) \<and>
    content msg = Some t \<and>
    Suc k < length (split_ws (lower t)) \<and>
    py_in ''cust'' (split_ws (lower t) ! k) \<and>
    (\<forall>j<k. \<not> py_in ''cust'' (split_ws (lower t) ! j))"
  then have "find_after_cust (split_ws (lower t)) = Some (split_ws (lower t) ! Suc k)"
    by (intro find_after_cust_first) simp_all
  moreover have "extract_customer_id (pre @ msg # post) = extract_customer_id (msg # post)"
    using a by (intro extract_customer_id_skip) simp
  ultimately show "extract_customer_id (pre @ msg # post) = split_ws (lower t) ! Suc k"
    using a by (simp add: extract_customer_id_step del: extract_customer_id.simps)
next
  show "extract_customer_id [\<lparr>role = Some ''user'', content = Some ''my cust id is 4477''\<rparr>] = ''id''"
    by (simp add: lower_def lower_char_def split_ws_def is_space_def)
qed

lemma split_ws_hello: "split_ws (lower ''Hello there'') = [''hello'', ''there'']"
  by code_simp

lemma split_ws_cust55: "split_ws (lower ''I am CUST 55 ok'') = [''i'', ''am'', ''cust'', ''55'', ''ok'']"
  by code_simp

theorem extract_customer_id_next_token_witness:
  "extract_customer_id [\<lparr>role = Some ''user'', content = Some ''Hello there''\<rparr>] = ''CUST001'' \<and>
   extract_customer_id
     [\<lparr>role = Some ''user'', content = Some ''Hello there''\<rparr>,
      \<lparr>role = Some ''user'', content = Some ''I am CUST 55 ok''\<rparr>,
      \<lparr>role = Some ''assistant'', content = None\<rparr>] = ''55''"
proof -
  let ?m1 = "\<lparr>role = Some ''user'', content = Some ''Hello there''\<rparr>"
  let ?m2 = "\<lparr>role = Some ''user'', content = Some ''I am CUST 55 ok''\<rparr>"
  let ?m3 = "\<lparr>role = Some ''assistant'', content = (None :: string option)\<rparr>"
  have h1: "\<forall>m\<in>set [?m1]. \<forall>text. content m = Some text \<longrightarrow>
        (\<forall>i. Suc i < length (split_ws (lower text)) \<longrightarrow>
             \<not> py_in ''cust'' (split_ws (lower text) ! i))"
    by (simp add: split_ws_hello less_Suc_eq)
  have h2: "content ?m2 = Some ''I am CUST 55 ok''" by simp
  have h3: "Suc 2 < length (split_ws (lower ''I am CUST 55 ok''))"
    by (simp add: split_ws_cust55)
  have h4: "py_in ''cust'' (split_ws (lower ''I am CUST 55 ok'') ! 2)"
    by (simp add: split_ws_cust55)
  have h5: "\<forall>j<2. \<not> py_in ''cust'' (split_ws (lower ''I am CUST 55 ok'') ! j)"
    by (simp add: split_ws_cust55 less_Suc_eq numeral_2_eq_2)
  have h6: "split_ws (lower ''I am CUST 55 ok'') ! Suc 2 = ''55''"
    by (simp add: split_ws_cust55)
  from extract_customer_id_next_token
         [of "[?m1]" "[?m1]" ?m2 "''I am CUST 55 ok''" 2 "[?m3]"]
       h1 h2 h3 h4 h5 h6
  show ?thesis by simp
qed

text \<open>
  C3 as stated fails at its own example: the token right after \<open>cust\<close> in
  \<open>my cust id is 4477\<close> is \<open>id\<close>, and that is what the code returns.
\<close>

theorem extract_customer_id_example_counterexample:
  "extract_customer_id [\<lparr>role = Some ''user'', content = Some ''my cust id is 4477''\<rparr>] \<noteq> ''4477''"
  by (simp add: lower_def lower_char_def split_ws_def is_space_def)

section \<open>Heuristic scores\<close>

lemma score_indicators_ge:
  "0 \<le> step \<Longrightarrow> score \<le> score_indicators indicators step conversation score"
proof (induction indicators arbitrary: score)
  case Nil
  then show ?case by simp
next
  case (Cons indicator indicators)
  let ?next = "if py_in (lower indicator) (lower conversation) then score + step else score"
  have "score \<le> ?next" using Cons.prems by simp
  also have "?next \<le> score_indicators indicators step conversation ?next"
    using Cons.prems by (rule Cons.IH)
  finally show ?case by simp
qed

lemma score_bounds:
  assumes "0 \<le> step" "1 \<le> b" "1 \<le> hi" "hi \<le> 10"
  shows "1 \<le> min hi (score_indicators indicators step c b) \<and>
         min hi (score_indicators indicators step c b) \<le> (10::real)"
  using score_indicators_ge[OF assms(1), of b indicators c] assms by simp

lemma clamp_bounds:
  "lo = 1 \<Longrightarrow> hi = 10 \<Longrightarrow> 1 \<le> max lo (min hi x) \<and> max lo (min hi x) \<le> (10::real)"
  by simp

lemma evaluate_communication_cases:
  "evaluate_communication conversation \<in> {4, 5, 6, 8}"
  by (simp add: evaluate_communication_def Let_def)

text \<open>
  C2. For every transcript, each heuristic sub-score (empathy, professionalism, listening,
  communication, problem solving, customer focus, technical accuracy, solution quality,
  guidance clarity, escalation score) lies in the closed interval from 1 to 10. The
  scores are reals here; the bounds rest on the clamps and on the increments being
  non-negative, which the rounding of binary floats keeps.
\<close>

theorem heuristic_scores_in_range:
  "1 \<le> evaluate_empathy c \<and> evaluate_empathy c \<le> 10 \<and>
   1 \<le> evaluate_professionalism c \<and> evaluate_professionalism c \<le> 10 \<and>
   1 \<le> evaluate_listening c \<and> evaluate_listening c \<le> 10 \<and>
   1 \<le> evaluate_communication c \<and> evaluate_communication c \<le> 10 \<and>
   1 \<le> evaluate_problem_solving c \<and> evaluate_problem_solving c \<le> 10 \<and>
   1 \<le> evaluate_customer_focus c \<and> evaluate_customer_focus c \<le> 10 \<and>
   1 \<le> evaluate_technical_accuracy c \<and> evaluate_technical_accuracy c \<le> 10 \<and>
   1 \<le> evaluate_solution_quality c \<and> evaluate_solution_quality c \<le> 10 \<and>
   1 \<le> evaluate_guidance_clarity c \<and> evaluate_guidance_clarity c \<le> 10 \<and>
   1 \<le> calculate_escalation_score c \<and> calculate_escalation_score c \<le> 10"
proof -
  have empathy: "1 \<le> evaluate_empathy c \<and> evaluate_empathy c \<le> 10"
    unfolding evaluate_empathy_def Let_def
    by (rule score_bounds) simp_all
  have professionalism: "1 \<le> evaluate_professionalism c \<and> evaluate_professionalism c \<le> 10"
    unfolding evaluate_professionalism_def Let_def by (rule clamp_bounds) simp_all
  have listening: "1 \<le> evaluate_listening c \<and> evaluate_listening c \<le> 10"
    unfolding evaluate_listening_def Let_def
    by (rule score_bounds) simp_all
  have communication: "1 \<le> evaluate_communication c \<and> evaluate_communication c \<le> 10"
    using evaluate_communication_cases[of c] by auto
  have problem_solving: "1 \<le> evaluate_problem_solving c \<and> evaluate_problem_solving c \<le> 10"
    unfolding evaluate_problem_solving_def Let_def
    by (rule score_bounds) simp_all
  have customer_focus: "1 \<le> evaluate_customer_focus c \<and> evaluate_customer_focus c \<le> 10"
    unfolding evaluate_customer_focus_def Let_def
    by (rule score_bounds) simp_all
  have technical: "1 \<le> evaluate_technical_accuracy c \<and> evaluate_technical_accuracy c \<le> 10"
    unfolding evaluate_technical_accuracy_def Let_def by (rule clamp_bounds) simp_all
  have solution: "1 \<le> evaluate_solution_quality c \<and> evaluate_solution_quality c \<le> 10"
    unfolding evaluate_solution_quality_def Let_def
    by (rule score_bounds) simp_all
  have guidance: "1 \<le> evaluate_guidance_clarity c \<and> evaluate_guidance_clarity c \<le> 10"
    unfolding evaluate_guidance_clarity_def Let_def
    by (rule score_bounds) simp_all
  have escalation: "1 \<le> calculate_escalation_score c \<and> calculate_escalation_score c \<le> 10"
    unfolding calculate_escalation_score_def Let_def by (rule clamp_bounds) simp_all
  from empathy professionalism listening communication problem_solving customer_focus
    technical solution guidance escalation
  show ?thesis by blast
qed

section \<open>Communication clarity\<close>

lemma quality_parts_turns: "quality_parts msgs = map turn_part (filter in_transcript msgs)"
  by (induction msgs)
     (auto simp: Let_def turn_part_def in_transcript_def get_content_def split: option.splits)

lemma py_join_Cons_if:
  "py_join sep (p # ps) = p @ (if ps = [] then [] else sep @ py_join sep ps)"
  by (cases ps) auto

lemma split_ws_aux_spaces:
  "(\<forall>c\<in>set ws. is_space c) \<Longrightarrow> split_ws_aux word ws = (if word = [] then [] else [word])"
  by (induction ws arbitrary: word) auto

lemma split_ws_aux_trailing:
  "(\<forall>c\<in>set ws. is_space c) \<Longrightarrow> split_ws_aux word (x @ ws) = split_ws_aux word x"
  by (induction x arbitrary: word) (auto simp: split_ws_aux_spaces)

lemma word_count_trailing:
  "(\<forall>c\<in>set ws. is_space c) \<Longrightarrow> word_count (x @ ws) = word_count x"
  by (simp add: word_count_def split_ws_def split_ws_aux_trailing)

lemma is_space_newline: "is_space CHR ''\<newline>''"
  by (simp add: is_space_def)

lemma no_straddle:
  assumes "\<not> sublist p a" and "y = [] \<or> hd y \<notin> set p"
  shows "\<not> prefix p (a @ y)"
proof
  assume "prefix p (a @ y)"
  then consider "prefix p a" | us where "p = a @ us" "prefix us y"
    by (auto simp: prefix_append)
  then show False
  proof cases
    case 1
    with assms(1) show False by auto
  next
    case 2
    show False
    proof (cases "us = []")
      case True
      with 2 assms(1) show False by simp
    next
      case False
      with 2(2) have "y \<noteq> []" "hd y = hd us" by (auto simp: prefix_def)
      moreover from False 2(1) have "hd us \<in> set p" by simp
      ultimately show False using assms(2) by simp
    qed
  qed
qed

lemma findall_agent_skip_chars:
  "CHR ''A'' \<notin> set x \<Longrightarrow> findall_agent (x @ y) = findall_agent y"
  by (induction x) auto

lemma findall_agent_skip_text:
  "\<not> sublist ''AGENT: '' u \<Longrightarrow> y = [] \<or> hd y \<notin> set ''AGENT: '' \<Longrightarrow>
   findall_agent (u @ y) = findall_agent y"
proof (induction u)
  case Nil
  then show ?case by simp
next
  case (Cons c cs)
  from Cons.prems have "\<not> prefix ''AGENT: '' ((c # cs) @ y)"
    by (intro no_straddle)
  then have "\<not> startswith (c # cs @ y) ''AGENT: ''"
    by (simp only: startswith_prefix append_Cons simp_thms)
  then have "findall_agent ((c # cs) @ y) = findall_agent (cs @ y)"
    by (simp only: append_Cons findall_agent.simps if_False)
  moreover from Cons.prems(1) have "\<not> sublist ''AGENT: '' cs"
    by (simp add: sublist_Cons_right)
  ultimately show ?case using Cons.IH Cons.prems(2) by simp
qed

lemma findall_agent_match:
  "findall_agent (''AGENT: '' @ d # ds) =
     fst (lazy_span [d] ds) # findall_agent (snd (lazy_span [d] ds))"
  by simp

lemma lookahead_customer: "lookahead (''CUSTOMER:'' @ z)"
  by (simp add: lookahead_def)

lemma lazy_span_to_customer:
  "\<not> sublist ''CUSTOMER:'' x \<Longrightarrow>
   lazy_span grp (x @ ''\<newline>\<newline>'' @ ''CUSTOMER:'' @ z) = (grp @ x @ ''\<newline>\<newline>'', ''CUSTOMER:'' @ z)"
proof (induction x arbitrary: grp)
  case Nil
  show ?case by (simp add: lookahead_def)
next
  case (Cons c cs)
  let ?rest = "''\<newline>\<newline>'' @ ''CUSTOMER:'' @ z"
  have "\<not> prefix ''CUSTOMER:'' ((c # cs) @ ?rest)"
    using Cons.prems by (intro no_straddle) simp_all
  then have "\<not> startswith (c # cs @ ?rest) ''CUSTOMER:''"
    by (simp only: startswith_prefix append_Cons simp_thms)
  then have "\<not> lookahead (c # cs @ ?rest)"
    by (simp add: lookahead_def)
  then have "lazy_span grp ((c # cs) @ ?rest) = lazy_span (grp @ [c]) (cs @ ?rest)"
    by (simp only: append_Cons lazy_span.simps if_False)
  moreover from Cons.prems have "\<not> sublist ''CUSTOMER:'' cs"
    by (simp add: sublist_Cons_right)
  ultimately show ?case using Cons.IH[of "grp @ [c]"] by simp
qed

lemma lazy_span_to_end:
  "\<not> sublist ''CUSTOMER:'' x \<Longrightarrow>
   \<exists>s1 s2. lazy_span grp x = (grp @ s1, s2) \<and> x = s1 @ s2 \<and> (s2 = [] \<or> s2 = ''\<newline>'')"
proof (induction x arbitrary: grp)
  case Nil
  show ?case by simp
next
  case (Cons c cs)
  from Cons.prems have np: "\<not> prefix ''CUSTOMER:'' (c # cs)" by auto
  show ?case
  proof (cases "lookahead (c # cs)")
    case True
    with np have "c # cs = ''\<newline>''"
      by (auto simp: lookahead_def startswith_prefix simp del: startswith.simps)
    moreover from True have "lazy_span grp (c # cs) = (grp, c # cs)" by simp
    ultimately show ?thesis by simp
  next
    case False
    from Cons.prems have "\<not> sublist ''CUSTOMER:'' cs" by (simp add: sublist_Cons_right)
    from Cons.IH[OF this, of "grp @ [c]"] obtain s1 s2 where
      "lazy_span (grp @ [c]) cs = ((grp @ [c]) @ s1, s2)" "cs = s1 @ s2" "s2 = [] \<or> s2 = ''\<newline>''"
      by blast
    with False have "lazy_span grp (c # cs) = (grp @ (c # s1), s2) \<and> c # cs = (c # s1) @ s2 \<and>
        (s2 = [] \<or> s2 = ''\<newline>'')"
      by simp
    then show ?thesis by blast
  qed
qed

lemma findall_agent_last_assistant:
  assumes "c \<noteq> []" and "\<not> sublist ''CUSTOMER:'' c"
  shows "map word_count (findall_agent (''AGENT: '' @ c)) = [word_count c]"
proof -
  from assms(1) obtain d ds where c: "c = d # ds" by (cases c) auto
  with assms(2) have "\<not> sublist ''CUSTOMER:'' ds" by (simp add: sublist_Cons_right)
  from lazy_span_to_end[OF this, of "[d]"] obtain s1 s2 where
    sp: "lazy_span [d] ds = ([d] @ s1, s2)" "ds = s1 @ s2" "s2 = [] \<or> s2 = ''\<newline>''"
    by blast
  from sp(3) have rest: "findall_agent s2 = []" by auto
  from sp(3) have "\<forall>x\<in>set s2. is_space x" by (auto simp: is_space_newline)
  then have "word_count (([d] @ s1) @ s2) = word_count ([d] @ s1)"
    by (rule word_count_trailing)
  with c sp(2) have wc: "word_count ([d] @ s1) = word_count c" by simp
  have "findall_agent (''AGENT: '' @ c) = ([d] @ s1) # findall_agent s2"
    unfolding c by (simp only: findall_agent_match sp(1) fst_conv snd_conv)
  with rest wc show ?thesis by simp
qed

lemma findall_agent_assistant_then_customer:
  assumes "c \<noteq> []" and "\<not> sublist ''CUSTOMER:'' c"
  shows "map word_count (findall_agent (''AGENT: '' @ c @ ''\<newline>\<newline>'' @ ''CUSTOMER:'' @ z)) =
         word_count c # map word_count (findall_agent (''CUSTOMER:'' @ z))"
proof -
  from assms(1) obtain d ds where c: "c = d # ds" by (cases c) auto
  with assms(2) have "\<not> sublist ''CUSTOMER:'' ds" by (simp add: sublist_Cons_right)
  from lazy_span_to_customer[OF this, of "[d]" z]
  have sp: "lazy_span [d] (ds @ ''\<newline>\<newline>'' @ ''CUSTOMER:'' @ z) =
              ([d] @ ds @ ''\<newline>\<newline>'', ''CUSTOMER:'' @ z)" .
  have "''AGENT: '' @ c @ ''\<newline>\<newline>'' @ ''CUSTOMER:'' @ z =
        ''AGENT: '' @ d # (ds @ ''\<newline>\<newline>'' @ ''CUSTOMER:'' @ z)"
    by (simp add: c)
  then have "findall_agent (''AGENT: '' @ c @ ''\<newline>\<newline>'' @ ''CUSTOMER:'' @ z) =
        ([d] @ ds @ ''\<newline>\<newline>'') # findall_agent (''CUSTOMER:'' @ z)"
    by (simp only: findall_agent_match sp fst_conv snd_conv)
  moreover have "word_count (c @ ''\<newline>\<newline>'') = word_count c"
    by (rule word_count_trailing) (simp add: is_space_newline)
  ultimately show ?thesis by (simp add: c)
qed

lemma findall_agent_customer:
  assumes "\<not> sublist ''AGENT: '' u" and "y = [] \<or> hd y \<notin> set ''AGENT: ''"
  shows "findall_agent (''CUSTOMER: '' @ u @ y) = findall_agent y"
proof -
  have "findall_agent (''CUSTOMER: '' @ (u @ y)) = findall_agent (u @ y)"
    by (rule findall_agent_skip_chars) simp
  also have "\<dots> = findall_agent y"
    using assms by (rule findall_agent_skip_text)
  finally show ?thesis .
qed

lemma spans_of_turns:
  assumes "\<forall>m\<in>set ts. in_transcript m"
    and "successively (\<lambda>m n. role m = Some ''assistant'' \<longrightarrow> role n = Some ''user'') ts"
    and "\<forall>m\<in>set ts. role m = Some ''assistant'' \<longrightarrow>
           get_content m \<noteq> [] \<and> \<not> sublist ''CUSTOMER:'' (get_content m)"
    and "\<forall>m\<in>set ts. role m = Some ''user'' \<longrightarrow> \<not> sublist ''AGENT: '' (get_content m)"
  shows "map word_count (findall_agent (py_join ''\<newline>\<newline>'' (map turn_part ts))) =
         map word_count (assistant_contents ts)"
  using assms
proof (induction ts rule: induct_list012)
  case 1
  show ?case by (simp add: assistant_contents_def)
next
  case (2 m)
  show ?case
  proof (cases "role m = Some ''user''")
    case True
    with "2.prems" have "\<not> sublist ''AGENT: '' (get_content m)" by simp
    then have "findall_agent (''CUSTOMER: '' @ get_content m @ []) = findall_agent []"
      by (rule findall_agent_customer) simp
    with True show ?thesis by (simp add: turn_part_def assistant_contents_def)
  next
    case False
    with "2.prems" have a: "role m = Some ''assistant''" by (simp add: in_transcript_def)
    with "2.prems" have "get_content m \<noteq> []" "\<not> sublist ''CUSTOMER:'' (get_content m)"
      by simp_all
    from findall_agent_last_assistant[OF this] a show ?thesis
      by (simp add: turn_part_def assistant_contents_def)
  qed
next
  case (3 m n zs)
  let ?T = "py_join ''\<newline>\<newline>'' (map turn_part (n # zs))"
  have join: "py_join ''\<newline>\<newline>'' (map turn_part (m # n # zs)) = turn_part m @ ''\<newline>\<newline>'' @ ?T"
    by simp
  from "3.prems" have IH: "map word_count (findall_agent ?T) = map word_count (assistant_contents (n # zs))"
    by (intro "3.IH"(2)) simp_all
  show ?case
  proof (cases "role m = Some ''user''")
    case True
    with "3.prems" have "\<not> sublist ''AGENT: '' (get_content m)" by simp
    then have "findall_agent (''CUSTOMER: '' @ get_content m @ (''\<newline>\<newline>'' @ ?T)) =
               findall_agent (''\<newline>\<newline>'' @ ?T)"
      by (rule findall_agent_customer) simp
    also have "\<dots> = findall_agent ?T"
      by (rule findall_agent_skip_chars) simp
    finally have "findall_agent (py_join ''\<newline>\<newline>'' (map turn_part (m # n # zs))) = findall_agent ?T"
      using True by (simp only: join turn_part_def simp_thms if_True append_assoc)
    with IH True show ?thesis by (simp add: assistant_contents_def)
  next
    case False
    with "3.prems" have a: "role m = Some ''assistant''" by (simp add: in_transcript_def)
    with "3.prems" have c: "get_content m \<noteq> []" "\<not> sublist ''CUSTOMER:'' (get_content m)"
      by simp_all
    from a "3.prems" have n: "role n = Some ''user''" by simp
    then have T: "?T = ''CUSTOMER:'' @ ('' '' @ get_content n @
                      (if zs = [] then [] else ''\<newline>\<newline>'' @ py_join ''\<newline>\<newline>'' (map turn_part zs)))"
      by (simp add: py_join_Cons_if turn_part_def)
    have "map word_count (findall_agent (''AGENT: '' @ get_content m @ ''\<newline>\<newline>'' @ ?T)) =
          word_count (get_content m) # map word_count (findall_agent ?T)"
      by (subst (1 2) T) (rule findall_agent_assistant_then_customer[OF c])
    moreover have "py_join ''\<newline>\<newline>'' (map turn_part (m # n # zs)) =
          ''AGENT: '' @ get_content m @ ''\<newline>\<newline>'' @ ?T"
      using a by (simp only: join turn_part_def append_assoc) simp
    ultimately show ?thesis using IH a by (simp add: assistant_contents_def)
  qed
qed

lemma spans_of_messages:
  assumes "successively (\<lambda>m n. role m = Some ''assistant'' \<longrightarrow> role n = Some ''user'')
             (filter in_transcript msgs)"
    and "\<forall>m\<in>set msgs. role m = Some ''assistant'' \<longrightarrow>
           get_content m \<noteq> [] \<and> \<not> py_in ''CUSTOMER:'' (get_content m)"
    and "\<forall>m\<in>set msgs. role m = Some ''user'' \<longrightarrow> \<not> py_in ''AGENT: '' (get_content m)"
  shows "map word_count (findall_agent (quality_extract_conversation msgs)) =
         map word_count (assistant_contents msgs)"
proof -
  let ?ts = "filter in_transcript msgs"
  have "map word_count (findall_agent (py_join ''\<newline>\<newline>'' (map turn_part ?ts))) =
         map word_count (assistant_contents ?ts)"
    using assms by (intro spans_of_turns) (auto simp: py_in_sublist)
  moreover have "assistant_contents ?ts = assistant_contents msgs"
    by (simp add: assistant_contents_def in_transcript_def conj_commute cong: conj_cong)
  ultimately show ?thesis
    by (simp add: quality_extract_conversation_def quality_parts_turns)
qed

text \<open>
  C8, as amended. Take a message list in which every assistant turn is followed by a user
  turn or is the last turn (the turns being the user and assistant messages), every
  assistant text is non-empty and does not contain \<open>CUSTOMER:\<close>, and no user text contains
  \<open>AGENT: \<close>. For its service-quality transcript the communication score is 8 when the
  assistant texts have mean word count 30, 4 when they have mean word count 3, and 5
  when there is no assistant turn.
\<close>

theorem evaluate_communication_buckets:
  "successively (\<lambda>m n. role m = Some ''assistant'' \<longrightarrow> role n = Some ''user'')
     (filter in_transcript msgs) \<and>
   (\<forall>m\<in>set msgs. role m = Some ''assistant'' \<longrightarrow>
        get_content m \<noteq> [] \<and> \<not> py_in ''CUSTOMER:'' (get_content m)) \<and>
   (\<forall>m\<in>set msgs. role m = Some ''user'' \<longrightarrow> \<not> py_in ''AGENT: '' (get_content m))
   \<longrightarrow>
   (assistant_contents msgs = [] \<longrightarrow>
      evaluate_communication (quality_extract_conversation msgs) = 5) \<and>
   (assistant_contents msgs \<noteq> [] \<and>
    sum_list (map word_count (assistant_contents msgs)) = 30 * length (assistant_contents msgs)
      \<longrightarrow> evaluate_communication (quality_extract_conversation msgs) = 8) \<and>
   (assistant_contents msgs \<noteq> [] \<and>
    sum_list (map word_count (assistant_contents msgs)) = 3 * length (assistant_contents msgs)
      \<longrightarrow> evaluate_communication (quality_extract_conversation msgs) = 4)"
proof
  assume h: "successively (\<lambda>m n. role m = Some ''assistant'' \<longrightarrow> role n = Some ''user'')
     (filter in_transcript msgs) \<and>
   (\<forall>m\<in>set msgs. role m = Some ''assistant'' \<longrightarrow>
        get_content m \<noteq> [] \<and> \<not> py_in ''CUSTOMER:'' (get_content m)) \<and>
   (\<forall>m\<in>set msgs. role m = Some ''user'' \<longrightarrow> \<not> py_in ''AGENT: '' (get_content m))"
  let ?spans = "findall_agent (quality_extract_conversation msgs)"
  from h have eq: "map word_count ?spans = map word_count (assistant_contents msgs)"
    by (intro spans_of_messages) simp_all
  then have len: "length ?spans = length (assistant_contents msgs)"
    by (rule map_eq_imp_length_eq)
  have "map (\<lambda>response. length (split_ws response)) ?spans = map word_count ?spans"
    by (simp add: word_count_def)
  with eq have total: "sum_list (map (\<lambda>response. length (split_ws response)) ?spans) =
      sum_list (map word_count (assistant_contents msgs))"
    by simp
  from len have empty: "?spans = [] \<longleftrightarrow> assistant_contents msgs = []" by auto
  show "(assistant_contents msgs = [] \<longrightarrow>
      evaluate_communication (quality_extract_conversation msgs) = 5) \<and>
   (assistant_contents msgs \<noteq> [] \<and>
    sum_list (map word_count (assistant_contents msgs)) = 30 * length (assistant_contents msgs)
      \<longrightarrow> evaluate_communication (quality_extract_conversation msgs) = 8) \<and>
   (assistant_contents msgs \<noteq> [] \<and>
    sum_list (map word_count (assistant_contents msgs)) = 3 * length (assistant_contents msgs)
      \<longrightarrow> evaluate_communication (quality_extract_conversation msgs) = 4)"
    unfolding evaluate_communication_def Let_def total len empty by simp
qed

lemma word_count_thirty: "word_count thirty_words = 30"
  by code_simp

theorem evaluate_communication_buckets_witness:
  "evaluate_communication (quality_extract_conversation [user_msg ''where is my order'']) = 5 \<and>
   evaluate_communication (quality_extract_conversation
     [user_msg ''where is my order'', assistant_msg thirty_words]) = 8 \<and>
   evaluate_communication (quality_extract_conversation
     [user_msg ''where is my order'', assistant_msg ''On its way'',
      user_msg ''when'', assistant_msg ''Tomorrow before noon'']) = 4"
proof -
  let ?m0 = "[user_msg ''where is my order'']"
  let ?m30 = "[user_msg ''where is my order'', assistant_msg thirty_words]"
  let ?m3 = "[user_msg ''where is my order'', assistant_msg ''On its way'',
      user_msg ''when'', assistant_msg ''Tomorrow before noon'']"
  have h0: "successively (\<lambda>m n. role m = Some ''assistant'' \<longrightarrow> role n = Some ''user'')
     (filter in_transcript ?m0) \<and>
   (\<forall>m\<in>set ?m0. role m = Some ''assistant'' \<longrightarrow>
        get_content m \<noteq> [] \<and> \<not> py_in ''CUSTOMER:'' (get_content m)) \<and>
   (\<forall>m\<in>set ?m0. role m = Some ''user'' \<longrightarrow> \<not> py_in ''AGENT: '' (get_content m))"
    by code_simp
  have h30: "successively (\<lambda>m n. role m = Some ''assistant'' \<longrightarrow> role n = Some ''user'')
     (filter in_transcript ?m30) \<and>
   (\<forall>m\<in>set ?m30. role m = Some ''assistant'' \<longrightarrow>
        get_content m \<noteq> [] \<and> \<not> py_in ''CUSTOMER:'' (get_content m)) \<and>
   (\<forall>m\<in>set ?m30. role m = Some ''user'' \<longrightarrow> \<not> py_in ''AGENT: '' (get_content m))"
    by code_simp
  have h3: "successively (\<lambda>m n. role m = Some ''assistant'' \<longrightarrow> role n = Some ''user'')
     (filter in_transcript ?m3) \<and>
   (\<forall>m\<in>set ?m3. role m = Some ''assistant'' \<longrightarrow>
        get_content m \<noteq> [] \<and> \<not> py_in ''CUSTOMER:'' (get_content m)) \<and>
   (\<forall>m\<in>set ?m3. role m = Some ''user'' \<longrightarrow> \<not> py_in ''AGENT: '' (get_content m))"
    by code_simp
  have c0: "assistant_contents ?m0 = []"
    by (simp add: assistant_contents_def user_msg_def)
  have c30: "assistant_contents ?m30 = [thirty_words]"
    by (simp add: assistant_contents_def user_msg_def assistant_msg_def get_content_def)
  have c3: "assistant_contents ?m3 = [''On its way'', ''Tomorrow before noon'']"
    by (simp add: assistant_contents_def user_msg_def assistant_msg_def get_content_def)
  have w3: "word_count ''On its way'' = 3" "word_count ''Tomorrow before noon'' = 3"
    by code_simp+
  from evaluate_communication_buckets[of ?m0] h0 c0
  have a: "evaluate_communication (quality_extract_conversation ?m0) = 5" by blast
  from evaluate_communication_buckets[of ?m30] h30
  have b: "evaluate_communication (quality_extract_conversation ?m30) = 8"
    by (simp add: c30 word_count_thirty)
  from evaluate_communication_buckets[of ?m3] h3
  have c: "evaluate_communication (quality_extract_conversation ?m3) = 4"
    by (simp add: c3 w3)
  from a b c show ?thesis by simp
qed

text \<open>
  C8 as stated fails. Two assistant turns in a row, each of 30 words, have mean word
  count 30, but the pattern takes them as one span of 61 words (the second \<open>AGENT:\<close>
  marker counts as a word), and the score is 6. A user text that holds \<open>AGENT: \<close> gives a
  span although there is no assistant turn, and the score is 4 instead of 5.
\<close>

lemma findall_agent_two_turns:
  "findall_agent (quality_extract_conversation [assistant_msg thirty_words, assistant_msg thirty_words]) =
     [thirty_words @ ''\<newline>\<newline>AGENT: '' @ thirty_words]"
  by code_simp

lemma word_count_two_turns:
  "length (split_ws (thirty_words @ ''\<newline>\<newline>AGENT: '' @ thirty_words)) = 61"
  by code_simp

lemma findall_agent_user_text:
  "findall_agent (quality_extract_conversation [user_msg ''AGENT: a b c'']) = [''a b c'']"
  by code_simp

theorem evaluate_communication_spans_counterexample:
  "word_count thirty_words = 30 \<and>
   evaluate_communication (quality_extract_conversation
     [assistant_msg thirty_words, assistant_msg thirty_words]) = 6 \<and>
   evaluate_communication (quality_extract_conversation
     [assistant_msg thirty_words, assistant_msg thirty_words]) \<noteq> 8 \<and>
   evaluate_communication (quality_extract_conversation [user_msg ''AGENT: a b c'']) = 4 \<and>
   evaluate_communication (quality_extract_conversation [user_msg ''AGENT: a b c'']) \<noteq> 5"
proof -
  have w: "length (split_ws ''a b c'') = 3" by code_simp
  have a: "evaluate_communication (quality_extract_conversation
     [assistant_msg thirty_words, assistant_msg thirty_words]) = 6"
    unfolding evaluate_communication_def findall_agent_two_turns Let_def
    by (simp only: list.map sum_list.Cons sum_list.Nil word_count_two_turns) simp
  have b: "evaluate_communication (quality_extract_conversation [user_msg ''AGENT: a b c'']) = 4"
    by (simp add: evaluate_communication_def findall_agent_user_text w)
  from a b show ?thesis by (simp add: word_count_thirty)
qed

section \<open>Escalation timing\<close>

lemma escalation_three_turns:
  "evaluate_escalation_timing (escalation_extract_conversation
     [user_msg ''help'', assistant_msg ''one'', assistant_msg ''two'', assistant_msg ''three'',
      user_msg ''I want a manager'']) = ''Too early - should attempt resolution first''"
  by code_simp

lemma escalation_six_turns:
  "evaluate_escalation_timing (escalation_extract_conversation
     [user_msg ''help'', assistant_msg ''one'', assistant_msg ''two'', assistant_msg ''three'',
      assistant_msg ''four'', assistant_msg ''five'', assistant_msg ''six'',
      user_msg ''I want a manager'']) = ''Too early - should attempt resolution first''"
  by code_simp

lemma quality_transcript_three_turns:
  "evaluate_escalation_timing (quality_extract_conversation
     [user_msg ''help'', assistant_msg ''one'', assistant_msg ''two'', assistant_msg ''three'',
      user_msg ''I want a manager'']) = ''Appropriate timing''"
  by code_simp

lemma quality_transcript_six_turns:
  "evaluate_escalation_timing (quality_extract_conversation
     [user_msg ''help'', assistant_msg ''one'', assistant_msg ''two'', assistant_msg ''three'',
      assistant_msg ''four'', assistant_msg ''five'', assistant_msg ''six'',
      user_msg ''I want a manager'']) = ''Too late - should have escalated sooner''"
  by code_simp

text \<open>
  C4 at three and at six assistant turns before the first \<open>manager\<close>. The escalation judge
  writes an assistant turn as \<open>assistant: ...\<close>, and the timing check counts \<open>AGENT:\<close>, the
  marker of the service-quality judge's transcript: the count is 0 and the verdict is
  the early one. On the service-quality transcript of the same messages the thresholds
  give the verdicts of the claim.
\<close>

theorem escalation_timing_counts_no_assistant_turn:
  "evaluate_escalation_timing (escalation_extract_conversation
     [user_msg ''help'', assistant_msg ''one'', assistant_msg ''two'', assistant_msg ''three'',
      user_msg ''I want a manager'']) = ''Too early - should attempt resolution first'' \<and>
   evaluate_escalation_timing (escalation_extract_conversation
     [user_msg ''help'', assistant_msg ''one'', assistant_msg ''two'', assistant_msg ''three'',
      assistant_msg ''four'', assistant_msg ''five'', assistant_msg ''six'',
      user_msg ''I want a manager'']) = ''Too early - should attempt resolution first'' \<and>
   evaluate_escalation_timing (quality_extract_conversation
     [user_msg ''help'', assistant_msg ''one'', assistant_msg ''two'', assistant_msg ''three'',
      user_msg ''I want a manager'']) = ''Appropriate timing'' \<and>
   evaluate_escalation_timing (quality_extract_conversation
     [user_msg ''help'', assistant_msg ''one'', assistant_msg ''two'', assistant_msg ''three'',
      assistant_msg ''four'', assistant_msg ''five'', assistant_msg ''six'',
      user_msg ''I want a manager'']) = ''Too late - should have escalated sooner''"
  using escalation_three_turns escalation_six_turns
    quality_transcript_three_turns quality_transcript_six_turns
  by (intro conjI)

section \<open>The response cleaner: fallback\<close>

lemma clean_lines_Nil_iff:
  "clean_lines ls = [] \<longleftrightarrow>
     (\<forall>l\<in>set ls. is_log_line l \<or> strip l = [] \<or> startswith l ''['' \<or> startswith l ''##'')"
  by (induction ls) auto

lemma clean_lines_elems_nonempty: "x \<in> set (clean_lines ls) \<Longrightarrow> x \<noteq> []"
  by (induction ls) (auto split: if_splits)

lemma py_join_nonempty:
  "xs \<noteq> [] \<Longrightarrow> (\<forall>x\<in>set xs. x \<noteq> []) \<Longrightarrow> py_join sep xs \<noteq> []"
  by (induction sep xs rule: py_join.induct) auto

text \<open>
  C5. When every line of the input is discarded by the cleaner (it holds a log marker,
  is blank, or starts with \<open>[\<close> or \<open>##\<close>), the cleaner returns the input unchanged; and
  the cleaner's output is never empty when its input is not.
\<close>

theorem format_crew_response_fallback:
  "((\<forall>line\<in>set (py_split response ''\<newline>'').
        is_log_line line \<or> strip line = [] \<or> startswith line ''['' \<or> startswith line ''##'')
      \<longrightarrow> format_crew_response response = response) \<and>
   (response \<noteq> [] \<longrightarrow> format_crew_response response \<noteq> [])"
proof (intro conjI impI)
  assume "\<forall>line\<in>set (py_split response ''\<newline>'').
        is_log_line line \<or> strip line = [] \<or> startswith line ''['' \<or> startswith line ''##''"
  then have "clean_lines (py_split response ''\<newline>'') = []"
    by (simp only: clean_lines_Nil_iff)
  then show "format_crew_response response = response"
    by (simp add: format_crew_response_def)
next
  assume nonempty: "response \<noteq> []"
  show "format_crew_response response \<noteq> []"
  proof (cases "clean_lines (py_split response ''\<newline>'') = []")
    case True
    with nonempty show ?thesis by (simp add: format_crew_response_def)
  next
    case False
    then have "py_join ''\<newline>'' (clean_lines (py_split response ''\<newline>'')) \<noteq> []"
      by (intro py_join_nonempty) (auto dest: clean_lines_elems_nonempty)
    with False show ?thesis by (simp add: format_crew_response_def)
  qed
qed

theorem format_crew_response_fallback_witness:
  "format_crew_response ''Agent: planning\<newline>[debug] step\<newline>  \<newline>## Result'' =
     ''Agent: planning\<newline>[debug] step\<newline>  \<newline>## Result'' \<and>
   format_crew_response ''Agent: planning\<newline>[debug] step\<newline>  \<newline>## Result'' \<noteq> []"
proof -
  let ?r = "''Agent: planning\<newline>[debug] step\<newline>  \<newline>## Result''"
  have h: "\<forall>line\<in>set (py_split ?r ''\<newline>'').
        is_log_line line \<or> strip line = [] \<or> startswith line ''['' \<or> startswith line ''##''"
    by code_simp
  from format_crew_response_fallback[of ?r] h show ?thesis by simp
qed

section \<open>The conversation adapter: dispatch, failures and thread state\<close>

lemma get_or_create_crew_known:
  "conversation_history a tid = Some tc \<Longrightarrow> get_or_create_crew a tid = (Inr (tc_crew tc), a)"
  by (simp add: get_or_create_crew_def)

lemma get_or_create_crew_fresh:
  "conversation_history a tid = None \<Longrightarrow> crew_class a = Inr c \<Longrightarrow>
   get_or_create_crew a tid =
     (Inr c, a\<lparr>conversation_history := (conversation_history a)
                  (tid \<mapsto> \<lparr>tc_crew = c, tc_messages = [], tc_context = Map.empty\<rparr>)\<rparr>)"
  by (simp add: get_or_create_crew_def)

lemma get_or_create_crew_stored:
  "get_or_create_crew a tid = (Inr c, a1) \<Longrightarrow>
   \<exists>tc. conversation_history a1 tid = Some tc \<and> tc_crew tc = c \<and>
        tc_messages tc = stored_messages a tid \<and>
        (conversation_history a tid = None \<longrightarrow> tc_context tc = Map.empty) \<and>
        (\<forall>t. t \<noteq> tid \<longrightarrow> conversation_history a1 t = conversation_history a t)"
  by (auto simp: get_or_create_crew_def stored_messages_def split: option.splits sum.splits)

lemma get_or_create_crew_raises:
  "get_or_create_crew a tid = (Inl e, a1) \<Longrightarrow> a1 = a"
  by (auto simp: get_or_create_crew_def split: option.splits sum.splits)

lemma call_body_judgment:
  assumes "get_or_create_crew a (thread_id inp) = (Inr c, a1)"
    and "conversation_history a1 (thread_id inp) = Some tc0"
    and "last_new_user_message_str inp = Inr u"
    and "judgment_request inp"
  shows "call_body a inp w =
     (Inr (handle_judgment_request inp (tc0\<lparr>tc_messages := tc_messages tc0 @ new_messages inp\<rparr>)),
      a1\<lparr>conversation_history := (conversation_history a1)
            (thread_id inp \<mapsto> tc0\<lparr>tc_messages := tc_messages tc0 @ new_messages inp\<rparr>)\<rparr>,
      w)"
  using assms by (simp add: call_body_def Let_def)

lemma call_body_inquiry:
  assumes "get_or_create_crew a (thread_id inp) = (Inr c, a1)"
    and "conversation_history a1 (thread_id inp) = Some tc0"
    and "last_new_user_message_str inp = Inr u"
    and "\<not> judgment_request inp"
  shows "call_body a inp w =
     (case fst (handle_inquiry c u (extract_customer_id (messages inp)) w) of
        Inl e \<Rightarrow>
          (Inl e,
           a1\<lparr>conversation_history := (conversation_history a1)
                 (thread_id inp \<mapsto> tc0\<lparr>tc_messages := tc_messages tc0 @ new_messages inp\<rparr>)\<rparr>,
           snd (handle_inquiry c u (extract_customer_id (messages inp)) w))
      | Inr response \<Rightarrow>
          (Inr (format_crew_response response),
           a1\<lparr>conversation_history := (conversation_history a1)
                 (thread_id inp \<mapsto>
                    tc0\<lparr>tc_messages := tc_messages tc0 @ new_messages inp,
                         tc_context := (tc_context tc0)
                           (''last_response'' \<mapsto> format_crew_response response,
                            ''customer_id'' \<mapsto> extract_customer_id (messages inp))\<rparr>)\<rparr>,
           snd (handle_inquiry c u (extract_customer_id (messages inp)) w)))"
  using assms
  by (cases "handle_inquiry c u (extract_customer_id (messages inp)) w")
     (simp add: call_body_def Let_def split: sum.splits)

lemma call_body_judgment_world:
  "judgment_request inp \<Longrightarrow> world_after (call_body a inp w) = w"
  by (auto simp: call_body_def Let_def split: prod.splits sum.splits option.splits)

lemma call_adapter_after: "adapter_after (call a inp w) = adapter_after (call_body a inp w)"
  by (cases "call_body a inp w") (auto simp: call_def split: sum.splits)

lemma call_world_after: "world_after (call a inp w) = world_after (call_body a inp w)"
  by (cases "call_body a inp w") (auto simp: call_def split: sum.splits)

lemma call_outcome:
  "outcome (call a inp w) =
     (case outcome (call_body a inp w) of
        Inl e \<Rightarrow> if is_Exception e then Inr (apology e) else Inl e
      | Inr r \<Rightarrow> Inr r)"
  by (cases "call_body a inp w") (auto simp: call_def split: sum.splits)

lemma call_body_other_thread:
  "t \<noteq> thread_id inp \<Longrightarrow>
   conversation_history (adapter_after (call_body a inp w)) t = conversation_history a t"
proof (cases "get_or_create_crew a (thread_id inp)")
  case (Pair r a1)
  assume neq: "t \<noteq> thread_id inp"
  show ?thesis
  proof (cases r)
    case (Inl e)
    with Pair have "a1 = a" by (auto dest: get_or_create_crew_raises)
    with Pair Inl show ?thesis by (simp add: call_body_def)
  next
    case (Inr c)
    with Pair obtain tc where
      tc: "conversation_history a1 (thread_id inp) = Some tc"
      and frame: "\<forall>t. t \<noteq> thread_id inp \<longrightarrow> conversation_history a1 t = conversation_history a t"
      by (auto dest: get_or_create_crew_stored)
    from Pair Inr tc frame neq show ?thesis
      by (simp add: call_body_def Let_def split: sum.splits prod.splits)
  qed
qed

lemma call_turn_stored:
  assumes "get_or_create_crew a (thread_id inp) = (Inr c, a1)"
    and "conversation_history a1 (thread_id inp) = Some tc0"
    and "last_new_user_message_str inp = Inr u"
  shows "\<exists>tc. conversation_history (adapter_after (call a inp w)) (thread_id inp) = Some tc \<and>
              tc_crew tc = tc_crew tc0 \<and>
              tc_messages tc = tc_messages tc0 @ new_messages inp"
proof (cases "judgment_request inp")
  case True
  from call_body_judgment[OF assms True, of w] show ?thesis by (simp add: call_adapter_after)
next
  case False
  from call_body_inquiry[OF assms False, of w] show ?thesis
    by (cases "fst (handle_inquiry c u (extract_customer_id (messages inp)) w)")
       (simp_all add: call_adapter_after)
qed

lemma json_dumps_object_head: "\<exists>rest. json_dumps (JObject kvs) = CHR ''{'' # rest"
  by simp

text \<open>
  C1, as amended. When the judgment flag of the input is set, \<open>call\<close> never invokes the
  responder (the world the responder acts on is unchanged) and, provided no exception
  occurs before the dispatch (the crew is obtained and the user message is read), returns
  the JSON summary. When the flag is not set and no exception occurs before the dispatch,
  the responder is invoked exactly once, on the user message and the extracted customer
  id: the world after the call is the world after that one invocation, and the outcome
  of the call is made from its result.
\<close>

theorem call_dispatch:
  "(judgment_request inp \<longrightarrow> world_after (call a inp w) = w) \<and>
   (judgment_request inp \<and> get_or_create_crew a (thread_id inp) = (Inr c, a1) \<and>
    last_new_user_message_str inp = Inr u \<longrightarrow>
      (\<exists>tc. conversation_history (adapter_after (call a inp w)) (thread_id inp) = Some tc \<and>
            outcome (call a inp w) =
              Inr (json_dumps (JObject
                [(''conversation_summary'', JString (format_conversation_context (messages inp))),
                 (''total_messages'', JInt (int (length (messages inp)))),
                 (''customer_id'',
                    JString (case tc_context tc ''customer_id'' of
                               None \<Rightarrow> ''unknown'' | Some v \<Rightarrow> v)),
                 (''last_response'',
                    JString (case tc_context tc ''last_response'' of None \<Rightarrow> [] | Some v \<Rightarrow> v)),
                 (''crew_info'', get_crew_info c)])))) \<and>
   (\<not> judgment_request inp \<and> get_or_create_crew a (thread_id inp) = (Inr c, a1) \<and>
    last_new_user_message_str inp = Inr u \<longrightarrow>
      world_after (call a inp w) =
        snd (handle_inquiry c u (extract_customer_id (messages inp)) w) \<and>
      outcome (call a inp w) =
        (case fst (handle_inquiry c u (extract_customer_id (messages inp)) w) of
           Inl e \<Rightarrow> if is_Exception e then Inr (apology e) else Inl e
         | Inr response \<Rightarrow> Inr (format_crew_response response)))"
proof (intro conjI impI)
  assume "judgment_request inp"
  then show "world_after (call a inp w) = w"
    by (simp add: call_world_after call_body_judgment_world)
next
  assume h: "judgment_request inp \<and> get_or_create_crew a (thread_id inp) = (Inr c, a1) \<and>
    last_new_user_message_str inp = Inr u"
  then obtain tc0 where tc0: "conversation_history a1 (thread_id inp) = Some tc0" "tc_crew tc0 = c"
    by (auto dest: get_or_create_crew_stored)
  let ?tc = "tc0\<lparr>tc_messages := tc_messages tc0 @ new_messages inp\<rparr>"
  from h tc0 have body: "call_body a inp w =
     (Inr (handle_judgment_request inp ?tc),
      a1\<lparr>conversation_history := (conversation_history a1)(thread_id inp \<mapsto> ?tc)\<rparr>, w)"
    by (intro call_body_judgment) simp_all
  then have "conversation_history (adapter_after (call a inp w)) (thread_id inp) = Some ?tc"
    by (simp add: call_adapter_after)
  moreover from body tc0 have "outcome (call a inp w) =
              Inr (json_dumps (JObject
                [(''conversation_summary'', JString (format_conversation_context (messages inp))),
                 (''total_messages'', JInt (int (length (messages inp)))),
                 (''customer_id'',
                    JString (case tc_context ?tc ''customer_id'' of
                               None \<Rightarrow> ''unknown'' | Some v \<Rightarrow> v)),
                 (''last_response'',
                    JString (case tc_context ?tc ''last_response'' of None \<Rightarrow> [] | Some v \<Rightarrow> v)),
                 (''crew_info'', get_crew_info c)]))"
    by (simp add: call_outcome handle_judgment_request_def Let_def del: json_dumps.simps)
  ultimately show "\<exists>tc. conversation_history (adapter_after (call a inp w)) (thread_id inp) = Some tc \<and>
            outcome (call a inp w) =
              Inr (json_dumps (JObject
                [(''conversation_summary'', JString (format_conversation_context (messages inp))),
                 (''total_messages'', JInt (int (length (messages inp)))),
                 (''customer_id'',
                    JString (case tc_context tc ''customer_id'' of
                               None \<Rightarrow> ''unknown'' | Some v \<Rightarrow> v)),
                 (''last_response'',
                    JString (case tc_context tc ''last_response'' of None \<Rightarrow> [] | Some v \<Rightarrow> v)),
                 (''crew_info'', get_crew_info c)]))"
    by blast
next
  assume h: "\<not> judgment_request inp \<and> get_or_create_crew a (thread_id inp) = (Inr c, a1) \<and>
    last_new_user_message_str inp = Inr u"
  then obtain tc0 where tc0: "conversation_history a1 (thread_id inp) = Some tc0"
    by (auto dest: get_or_create_crew_stored)
  note body = call_body_inquiry[of a inp c a1 tc0 u w]
  from h tc0 body
  show "world_after (call a inp w) =
        snd (handle_inquiry c u (extract_customer_id (messages inp)) w)"
    by (cases "fst (handle_inquiry c u (extract_customer_id (messages inp)) w)")
       (simp_all add: call_world_after)
  from h tc0 body
  show "outcome (call a inp w) =
        (case fst (handle_inquiry c u (extract_customer_id (messages inp)) w) of
           Inl e \<Rightarrow> if is_Exception e then Inr (apology e) else Inl e
         | Inr response \<Rightarrow> Inr (format_crew_response response))"
    by (cases "fst (handle_inquiry c u (extract_customer_id (messages inp)) w)")
       (simp_all add: call_outcome)
qed

lemma extract_customer_id_4477: "extract_customer_id [user_msg ''my cust id is 4477''] = ''id''"
  by code_simp

lemma get_or_create_crew_init:
  "get_or_create_crew (init_adapter (Inr c)) tid =
     (Inr c, \<lparr>crew_class = Inr c,
              conversation_history =
                Map.empty(tid \<mapsto> \<lparr>tc_crew = c, tc_messages = [], tc_context = Map.empty\<rparr>)\<rparr>)"
  by (simp add: get_or_create_crew_def init_adapter_def)

lemma format_crew_response_echo:
  "format_crew_response ''Agent: working\<newline>Hello id'' = ''Hello id''"
  by code_simp

theorem call_dispatch_witness:
  "world_after (call (init_adapter (Inr echo_crew)) (turn ''t1'' ''my cust id is 4477'' True) []) = [] \<and>
   outcome (call (init_adapter (Inr echo_crew)) (turn ''t1'' ''my cust id is 4477'' True) []) =
     Inr (json_dumps (JObject
       [(''conversation_summary'', JString ''Customer: my cust id is 4477''),
        (''total_messages'', JInt 1),
        (''customer_id'', JString ''unknown''),
        (''last_response'', JString []),
        (''crew_info'', JObject [])])) \<and>
   world_after (call (init_adapter (Inr echo_crew)) (turn ''t1'' ''my cust id is 4477'' False) []) =
     [(''my cust id is 4477'', ''id'')] \<and>
   outcome (call (init_adapter (Inr echo_crew)) (turn ''t1'' ''my cust id is 4477'' False) []) =
     Inr ''Hello id''"
proof -
  let ?a = "init_adapter (Inr echo_crew)"
  let ?j = "turn ''t1'' ''my cust id is 4477'' True"
  let ?n = "turn ''t1'' ''my cust id is 4477'' False"
  let ?w = "[] :: (string \<times> string) list"
  note d = call_dispatch[of ?j ?a ?w echo_crew _ "''my cust id is 4477''"]
  note e = call_dispatch[of ?n ?a ?w echo_crew _ "''my cust id is 4477''"]
  have g: "get_or_create_crew ?a ''t1'' =
     (Inr echo_crew, \<lparr>crew_class = Inr echo_crew,
              conversation_history =
                Map.empty(''t1'' \<mapsto> \<lparr>tc_crew = echo_crew, tc_messages = [], tc_context = Map.empty\<rparr>)\<rparr>)"
    by (rule get_or_create_crew_init)
  have c1: "world_after (call ?a ?j ?w) = []"
    using d by (simp add: turn_def)
  have stored: "conversation_history (adapter_after (call ?a ?j ?w)) ''t1'' =
      Some \<lparr>tc_crew = echo_crew, tc_messages = [user_msg ''my cust id is 4477''],
            tc_context = Map.empty\<rparr>"
    by (simp add: call_adapter_after call_body_def g turn_def Let_def)
  from d g stored have c2: "outcome (call ?a ?j ?w) =
     Inr (json_dumps (JObject
       [(''conversation_summary'', JString ''Customer: my cust id is 4477''),
        (''total_messages'', JInt 1),
        (''customer_id'', JString ''unknown''),
        (''last_response'', JString []),
        (''crew_info'', JObject [])]))"
    by (simp add: turn_def format_conversation_context_def user_msg_def echo_crew_def mock_crew_def
             del: json_dumps.simps)
  from e g have c3: "world_after (call ?a ?n ?w) = [(''my cust id is 4477'', ''id'')]"
    by (simp add: turn_def extract_customer_id_4477 echo_crew_def mock_crew_def
             del: extract_customer_id.simps)
  from e g have c4: "outcome (call ?a ?n ?w) = Inr ''Hello id''"
    by (simp add: turn_def extract_customer_id_4477 echo_crew_def mock_crew_def
                  format_crew_response_echo
             del: extract_customer_id.simps)
  from c1 c2 c3 c4 show ?thesis by simp
qed

text \<open>
  C1 as stated fails for a judgment-flagged input whose user message cannot be read:
  the exception is raised before the dispatch, and \<open>call\<close> returns the apology string,
  which is not a JSON summary (it does not even start with a brace).
\<close>

theorem call_dispatch_judgment_counterexample:
  "judgment_request ((assistant_turn ''t1'' ''hello'')\<lparr>judgment_request := True\<rparr>) \<and>
   outcome (call (init_adapter (Inr echo_crew))
                 ((assistant_turn ''t1'' ''hello'')\<lparr>judgment_request := True\<rparr>) []) =
     Inr (''I apologize, but I encountered an error while processing your request. '' @
          ''Please try again or contact support if the issue persists. '' @
          ''Error: Error in CrewAI adapter: No new user messages found'') \<and>
   \<not> (\<exists>kvs. outcome (call (init_adapter (Inr echo_crew))
                 ((assistant_turn ''t1'' ''hello'')\<lparr>judgment_request := True\<rparr>) []) =
              Inr (json_dumps (JObject kvs)))"
proof -
  let ?i = "(assistant_turn ''t1'' ''hello'')\<lparr>judgment_request := True\<rparr>"
  have r: "outcome (call (init_adapter (Inr echo_crew)) ?i []) =
     Inr (''I apologize, but I encountered an error while processing your request. '' @
          ''Please try again or contact support if the issue persists. '' @
          ''Error: Error in CrewAI adapter: No new user messages found'')"
    by (simp add: call_outcome call_body_def get_or_create_crew_init assistant_turn_def apology_def)
  have "\<not> (\<exists>kvs. outcome (call (init_adapter (Inr echo_crew)) ?i []) = Inr (json_dumps (JObject kvs)))"
    unfolding r by simp
  with r show ?thesis by (simp add: assistant_turn_def)
qed




text \<open>
  C9, as amended. Two calls in sequence on a thread id, each with exactly one new message
  and each reaching the point where the new messages are stored (the crew of the thread
  is obtained and the user message is read without an exception), append those two
  messages to the stored message list of the thread, whatever the judgment flags and the
  responder's outcomes: its length grows by 2, and is 2 when the thread id was not in
  the history before. A call on any other thread id leaves the stored state of the
  thread (its message list and its context) unchanged.
\<close>

theorem two_turns_accumulate_and_threads_are_separate:
  "(thread_id i1 = t \<and> thread_id i2 = t \<and>
    length (new_messages i1) = 1 \<and> length (new_messages i2) = 1 \<and>
    get_or_create_crew a t = (Inr c, a0) \<and>
    last_new_user_message_str i1 = Inr u1 \<and> last_new_user_message_str i2 = Inr u2
      \<longrightarrow> stored_messages
             (adapter_after (call (adapter_after (call a i1 w)) i2 (world_after (call a i1 w)))) t =
             stored_messages a t @ new_messages i1 @ new_messages i2 \<and>
          length (stored_messages
             (adapter_after (call (adapter_after (call a i1 w)) i2 (world_after (call a i1 w)))) t) =
             length (stored_messages a t) + 2 \<and>
          (conversation_history a t = None \<longrightarrow>
             length (stored_messages
               (adapter_after (call (adapter_after (call a i1 w)) i2 (world_after (call a i1 w)))) t)
             = 2)) \<and>
   (thread_id i3 \<noteq> t \<longrightarrow>
      conversation_history (adapter_after (call b i3 v)) t = conversation_history b t)"
proof (intro conjI impI)
  assume h: "thread_id i1 = t \<and> thread_id i2 = t \<and>
    length (new_messages i1) = 1 \<and> length (new_messages i2) = 1 \<and>
    get_or_create_crew a t = (Inr c, a0) \<and>
    last_new_user_message_str i1 = Inr u1 \<and> last_new_user_message_str i2 = Inr u2"
  let ?b = "adapter_after (call a i1 w)"
  let ?w1 = "world_after (call a i1 w)"
  let ?final = "adapter_after (call ?b i2 ?w1)"
  from h obtain tc0 where tc0: "conversation_history a0 t = Some tc0"
    "tc_messages tc0 = stored_messages a t"
    by (auto dest: get_or_create_crew_stored)
  from h have g1: "get_or_create_crew a (thread_id i1) = (Inr c, a0)" by simp
  from h tc0 have s1: "conversation_history a0 (thread_id i1) = Some tc0" by simp
  from h have u1: "last_new_user_message_str i1 = Inr u1" by simp
  from call_turn_stored[OF g1 s1 u1, of w] h tc0 obtain tc1 where
    tc1: "conversation_history ?b t = Some tc1"
         "tc_messages tc1 = stored_messages a t @ new_messages i1"
    by auto
  from tc1 h have g2: "get_or_create_crew ?b (thread_id i2) = (Inr (tc_crew tc1), ?b)"
    by (simp add: get_or_create_crew_known)
  from tc1 h have s2: "conversation_history ?b (thread_id i2) = Some tc1" by simp
  from h have u2: "last_new_user_message_str i2 = Inr u2" by simp
  from call_turn_stored[OF g2 s2 u2, of ?w1] h obtain tc2 where
    tc2: "conversation_history ?final t = Some tc2"
         "tc_messages tc2 = tc_messages tc1 @ new_messages i2"
    by auto
  from tc1 tc2 show grow: "stored_messages ?final t =
      stored_messages a t @ new_messages i1 @ new_messages i2"
    by (simp add: stored_messages_def)
  from grow h show len: "length (stored_messages ?final t) = length (stored_messages a t) + 2"
    by simp
  assume "conversation_history a t = None"
  with len show "length (stored_messages ?final t) = 2"
    by (simp add: stored_messages_def)
next
  assume "thread_id i3 \<noteq> t"
  then show "conversation_history (adapter_after (call b i3 v)) t = conversation_history b t"
    by (simp add: call_adapter_after call_body_other_thread)
qed

theorem two_turns_accumulate_and_threads_are_separate_witness:
  "stored_messages
     (adapter_after (call (adapter_after (call (init_adapter (Inr echo_crew)) (turn ''t1'' ''hello'' False) []))
                          (turn ''t1'' ''thanks'' True)
                          (world_after (call (init_adapter (Inr echo_crew)) (turn ''t1'' ''hello'' False) []))))
     ''t1'' = [user_msg ''hello'', user_msg ''thanks''] \<and>
   length (stored_messages
     (adapter_after (call (adapter_after (call (init_adapter (Inr echo_crew)) (turn ''t1'' ''hello'' False) []))
                          (turn ''t1'' ''thanks'' True)
                          (world_after (call (init_adapter (Inr echo_crew)) (turn ''t1'' ''hello'' False) []))))
     ''t1'') = 2 \<and>
   conversation_history
     (adapter_after (call (adapter_after (call (init_adapter (Inr echo_crew)) (turn ''t1'' ''hello'' False) []))
                          (turn ''t2'' ''hi'' False) [])) ''t1'' =
   conversation_history
     (adapter_after (call (init_adapter (Inr echo_crew)) (turn ''t1'' ''hello'' False) [])) ''t1''"
proof -
  let ?a = "init_adapter (Inr echo_crew)"
  let ?w = "[] :: (string \<times> string) list"
  let ?i1 = "turn ''t1'' ''hello'' False"
  let ?i2 = "turn ''t1'' ''thanks'' True"
  let ?i3 = "turn ''t2'' ''hi'' False"
  let ?b = "adapter_after (call ?a ?i1 ?w)"
  note th = two_turns_accumulate_and_threads_are_separate
              [where ?i1.0 = ?i1 and t = "''t1''" and ?i2.0 = ?i2 and a = ?a and c = echo_crew
                 and ?a0.0 = "\<lparr>crew_class = Inr echo_crew,
                            conversation_history =
                              Map.empty(''t1'' \<mapsto> \<lparr>tc_crew = echo_crew, tc_messages = [],
                                                    tc_context = Map.empty\<rparr>)\<rparr>"
                 and ?u1.0 = "''hello''" and ?u2.0 = "''thanks''" and w = ?w
                 and ?i3.0 = ?i3 and b = ?b and v = ?w]
  have h: "thread_id ?i1 = ''t1''" "thread_id ?i2 = ''t1''"
    "length (new_messages ?i1) = 1" "length (new_messages ?i2) = 1"
    "last_new_user_message_str ?i1 = Inr ''hello''" "last_new_user_message_str ?i2 = Inr ''thanks''"
    "new_messages ?i1 @ new_messages ?i2 = [user_msg ''hello'', user_msg ''thanks'']"
    "thread_id ?i3 \<noteq> ''t1''"
    "stored_messages ?a ''t1'' = []"
    by (simp_all add: init_adapter_def turn_def stored_messages_def)
  have g: "get_or_create_crew ?a ''t1'' =
     (Inr echo_crew, \<lparr>crew_class = Inr echo_crew,
              conversation_history =
                Map.empty(''t1'' \<mapsto> \<lparr>tc_crew = echo_crew, tc_messages = [], tc_context = Map.empty\<rparr>)\<rparr>)"
    by (rule get_or_create_crew_init)
  from th h g show ?thesis by simp
qed

text \<open>
  C9 as stated fails when the one new message of each call is an assistant message: the
  scenario library finds no new user message, the exception is raised before the new messages are
  stored, and after both calls the stored message list of the thread is empty.
\<close>

theorem two_turns_not_stored_counterexample:
  "thread_id (assistant_turn ''t1'' ''hello'') = ''t1'' \<and>
   thread_id (assistant_turn ''t1'' ''again'') = ''t1'' \<and>
   length (new_messages (assistant_turn ''t1'' ''hello'')) = 1 \<and>
   length (new_messages (assistant_turn ''t1'' ''again'')) = 1 \<and>
   conversation_history
     (adapter_after
        (call (adapter_after (call (init_adapter (Inr echo_crew)) (assistant_turn ''t1'' ''hello'') []))
              (assistant_turn ''t1'' ''again'')
              (world_after (call (init_adapter (Inr echo_crew)) (assistant_turn ''t1'' ''hello'') []))))
     ''t1'' = Some \<lparr>tc_crew = echo_crew, tc_messages = [], tc_context = Map.empty\<rparr> \<and>
   length (stored_messages
     (adapter_after
        (call (adapter_after (call (init_adapter (Inr echo_crew)) (assistant_turn ''t1'' ''hello'') []))
              (assistant_turn ''t1'' ''again'')
              (world_after (call (init_adapter (Inr echo_crew)) (assistant_turn ''t1'' ''hello'') []))))
     ''t1'') = 0"
proof -
  let ?a = "init_adapter (Inr echo_crew)"
  let ?w = "[] :: (string \<times> string) list"
  let ?a1 = "\<lparr>crew_class = Inr echo_crew,
              conversation_history =
                Map.empty(''t1'' \<mapsto> \<lparr>tc_crew = echo_crew, tc_messages = [], tc_context = Map.empty\<rparr>)\<rparr>"
  have first: "call ?a (assistant_turn ''t1'' ''hello'') ?w =
      (Inr (apology (Exception ''No new user messages found'')), ?a1, ?w)"
    by (simp add: call_def call_body_def get_or_create_crew_init assistant_turn_def)
  have second: "call ?a1 (assistant_turn ''t1'' ''again'') ?w =
      (Inr (apology (Exception ''No new user messages found'')), ?a1, ?w)"
    by (simp add: call_def call_body_def get_or_create_crew_def assistant_turn_def)
  show ?thesis
    by (simp add: first second stored_messages_def) (simp add: assistant_turn_def)
qed

text \<open>
  C10. When the first call on a thread id is a judgment request (and the crew is
  constructed and the user message read without an exception), the JSON summary it
  returns has \<open>customer_id\<close> equal to \<open>unknown\<close> and \<open>last_response\<close> equal to the empty
  string, whatever the messages of the input hold.
\<close>

theorem first_call_judgment_summary:
  "conversation_history a (thread_id inp) = None \<and> crew_class a = Inr c \<and>
   last_new_user_message_str inp = Inr u \<and> judgment_request inp
     \<longrightarrow> outcome (call a inp w) =
           Inr (json_dumps (JObject
             [(''conversation_summary'', JString (format_conversation_context (messages inp))),
              (''total_messages'', JInt (int (length (messages inp)))),
              (''customer_id'', JString ''unknown''),
              (''last_response'', JString []),
              (''crew_info'', get_crew_info c)]))"
proof
  assume h: "conversation_history a (thread_id inp) = None \<and> crew_class a = Inr c \<and>
   last_new_user_message_str inp = Inr u \<and> judgment_request inp"
  let ?tc0 = "\<lparr>tc_crew = c, tc_messages = [], tc_context = Map.empty\<rparr>"
  let ?a1 = "a\<lparr>conversation_history := (conversation_history a)(thread_id inp \<mapsto> ?tc0)\<rparr>"
  from h have g: "get_or_create_crew a (thread_id inp) = (Inr c, ?a1)"
    by (simp add: get_or_create_crew_fresh)
  have s: "conversation_history ?a1 (thread_id inp) = Some ?tc0" by simp
  from h have "call_body a inp w =
     (Inr (handle_judgment_request inp (?tc0\<lparr>tc_messages := tc_messages ?tc0 @ new_messages inp\<rparr>)),
      ?a1\<lparr>conversation_history := (conversation_history ?a1)
            (thread_id inp \<mapsto> ?tc0\<lparr>tc_messages := tc_messages ?tc0 @ new_messages inp\<rparr>)\<rparr>,
      w)"
    by (intro call_body_judgment[OF g s]) simp_all
  then show "outcome (call a inp w) =
           Inr (json_dumps (JObject
             [(''conversation_summary'', JString (format_conversation_context (messages inp))),
              (''total_messages'', JInt (int (length (messages inp)))),
              (''customer_id'', JString ''unknown''),
              (''last_response'', JString []),
              (''crew_info'', get_crew_info c)]))"
    by (simp add: call_outcome handle_judgment_request_def Let_def del: json_dumps.simps)
qed

lemma json_dumps_first_summary:
  "json_dumps (JObject
     [(''conversation_summary'', JString ''Customer: my cust id is 4477''),
      (''total_messages'', JInt 1),
      (''customer_id'', JString ''unknown''),
      (''last_response'', JString []),
      (''crew_info'', JObject [])]) =
   ''{\"conversation_summary\": \"Customer: my cust id is 4477\", \"total_messages\": 1, '' @
   ''\"customer_id\": \"unknown\", \"last_response\": \"\", \"crew_info\": {}}''"
  by code_simp

theorem first_call_judgment_summary_witness:
  "outcome (call (init_adapter (Inr failing_crew)) (turn ''t1'' ''my cust id is 4477'' True) []) =
   Inr (''{\"conversation_summary\": \"Customer: my cust id is 4477\", \"total_messages\": 1, '' @
        ''\"customer_id\": \"unknown\", \"last_response\": \"\", \"crew_info\": {}}'')"
proof -
  let ?a = "init_adapter (Inr failing_crew)"
  let ?i = "turn ''t1'' ''my cust id is 4477'' True"
  let ?w = "[] :: (string \<times> string) list"
  have h: "conversation_history ?a (thread_id ?i) = None" "crew_class ?a = Inr failing_crew"
    "last_new_user_message_str ?i = Inr ''my cust id is 4477''" "judgment_request ?i"
    by (simp_all add: init_adapter_def turn_def)
  have m: "format_conversation_context (messages ?i) = ''Customer: my cust id is 4477''"
    "int (length (messages ?i)) = 1" "get_crew_info failing_crew = JObject []"
    by (simp_all add: turn_def user_msg_def format_conversation_context_def failing_crew_def
                      mock_crew_def)
  from first_call_judgment_summary[of ?a ?i failing_crew "''my cust id is 4477''" ?w] h
  have "outcome (call ?a ?i ?w) = Inr (json_dumps (JObject
     [(''conversation_summary'', JString ''Customer: my cust id is 4477''),
      (''total_messages'', JInt 1),
      (''customer_id'', JString ''unknown''),
      (''last_response'', JString []),
      (''crew_info'', JObject [])]))"
    by (simp only: m simp_thms)
  then show ?thesis by (simp only: json_dumps_first_summary)
qed

section \<open>The response cleaner: cleaned text\<close>

lemma split_aux_newline_Cons:
  "split_aux ''\<newline>'' part (c # cs) =
     (if c = CHR ''\<newline>'' then part # split_aux ''\<newline>'' [] cs
      else split_aux ''\<newline>'' (part @ [c]) cs)"
  by auto

lemma split_aux_not_Nil: "split_aux sep part s \<noteq> []"
  by (induction sep part s rule: split_aux.induct) auto

lemma py_join_Cons: "ys \<noteq> [] \<Longrightarrow> py_join sep (x # ys) = x @ sep @ py_join sep ys"
  by (cases ys) auto

lemma py_join_split_aux: "py_join ''\<newline>'' (split_aux ''\<newline>'' part s) = part @ s"
proof (induction s arbitrary: part)
  case Nil
  then show ?case by simp
next
  case (Cons c cs)
  show ?case
  proof (cases "c = CHR ''\<newline>''")
    case True
    then have "split_aux ''\<newline>'' part (c # cs) = part # split_aux ''\<newline>'' [] cs"
      by (simp only: split_aux_newline_Cons simp_thms if_True)
    then have "py_join ''\<newline>'' (split_aux ''\<newline>'' part (c # cs)) =
        part @ ''\<newline>'' @ py_join ''\<newline>'' (split_aux ''\<newline>'' [] cs)"
      by (simp only: py_join_Cons[OF split_aux_not_Nil])
    with True Cons.IH[of "[]"] show ?thesis by simp
  next
    case False
    then have "split_aux ''\<newline>'' part (c # cs) = split_aux ''\<newline>'' (part @ [c]) cs"
      by (simp only: split_aux_newline_Cons if_False)
    with Cons.IH[of "part @ [c]"] show ?thesis by simp
  qed
qed

lemma py_join_py_split: "py_join ''\<newline>'' (py_split s ''\<newline>'') = s"
  by (simp add: py_split_def py_join_split_aux)

lemma split_aux_no_newline:
  "CHR ''\<newline>'' \<notin> set part \<Longrightarrow> x \<in> set (split_aux ''\<newline>'' part s) \<Longrightarrow> CHR ''\<newline>'' \<notin> set x"
proof (induction s arbitrary: part)
  case Nil
  then show ?case by simp
next
  case (Cons c cs)
  show ?case
  proof (cases "c = CHR ''\<newline>''")
    case True
    with Cons.prems have "x = part \<or> x \<in> set (split_aux ''\<newline>'' [] cs)"
      by (simp only: split_aux_newline_Cons simp_thms if_True) auto
    with Cons.prems(1) Cons.IH[of "[]"] show ?thesis by auto
  next
    case False
    with Cons.prems have "x \<in> set (split_aux ''\<newline>'' (part @ [c]) cs)"
      by (simp only: split_aux_newline_Cons if_False)
    moreover from False Cons.prems(1) have "CHR ''\<newline>'' \<notin> set (part @ [c])" by simp
    ultimately show ?thesis by (rule Cons.IH[rotated])
  qed
qed

lemma py_split_no_newline: "x \<in> set (py_split s ''\<newline>'') \<Longrightarrow> CHR ''\<newline>'' \<notin> set x"
  using split_aux_no_newline[of "[]" x s] by (simp add: py_split_def)

lemma split_aux_line:
  "CHR ''\<newline>'' \<notin> set x \<Longrightarrow> split_aux ''\<newline>'' part x = [part @ x]"
proof (induction x arbitrary: part)
  case Nil
  then show ?case by simp
next
  case (Cons c cs)
  then have "c \<noteq> CHR ''\<newline>''" "CHR ''\<newline>'' \<notin> set cs" by auto
  with Cons.IH[of "part @ [c]"] show ?case
    by (simp only: split_aux_newline_Cons if_False) simp
qed

lemma split_aux_line_newline:
  "CHR ''\<newline>'' \<notin> set x \<Longrightarrow>
   split_aux ''\<newline>'' part (x @ CHR ''\<newline>'' # rest) = (part @ x) # split_aux ''\<newline>'' [] rest"
proof (induction x arbitrary: part)
  case Nil
  show ?case by (simp only: append_Nil append_Nil2 split_aux_newline_Cons simp_thms if_True)
next
  case (Cons c cs)
  then have "c \<noteq> CHR ''\<newline>''" "CHR ''\<newline>'' \<notin> set cs" by auto
  with Cons.IH[of "part @ [c]"] show ?case
    by (simp only: append_Cons split_aux_newline_Cons if_False) simp
qed

lemma split_aux_py_join:
  "xs \<noteq> [] \<Longrightarrow> (\<forall>x\<in>set xs. CHR ''\<newline>'' \<notin> set x) \<Longrightarrow>
   split_aux ''\<newline>'' part (py_join ''\<newline>'' xs) = (part @ hd xs) # tl xs"
proof (induction "''\<newline>''" xs arbitrary: part rule: py_join.induct)
  case 1
  then show ?case by simp
next
  case (2 x)
  then show ?case by (simp add: split_aux_line)
next
  case (3 x y ys)
  from "3.prems" have nx: "CHR ''\<newline>'' \<notin> set x" by simp
  have "split_aux ''\<newline>'' part (py_join ''\<newline>'' (x # y # ys)) =
        split_aux ''\<newline>'' part (x @ CHR ''\<newline>'' # py_join ''\<newline>'' (y # ys))"
    by simp
  also have "\<dots> = (part @ x) # split_aux ''\<newline>'' [] (py_join ''\<newline>'' (y # ys))"
    by (rule split_aux_line_newline[OF nx])
  also have "split_aux ''\<newline>'' [] (py_join ''\<newline>'' (y # ys)) = ([] @ hd (y # ys)) # tl (y # ys)"
    using "3.prems" by (intro "3.hyps") simp_all
  finally show ?case by simp
qed

lemma py_split_py_join:
  "xs \<noteq> [] \<Longrightarrow> (\<forall>x\<in>set xs. CHR ''\<newline>'' \<notin> set x) \<Longrightarrow>
   py_split (py_join ''\<newline>'' xs) ''\<newline>'' = xs"
  using split_aux_py_join[of xs "[]"] by (simp add: py_split_def)

lemma sublist_strip: "sublist (strip l) l"
proof -
  have "sublist (dropWhile is_space (rev (dropWhile is_space l))) (rev (dropWhile is_space l))"
    by (rule sublist_dropWhile)
  then have "sublist (strip l) (dropWhile is_space l)"
    by (simp add: strip_def sublist_rev_left)
  moreover have "sublist (dropWhile is_space l) l" by (rule sublist_dropWhile)
  ultimately show ?thesis by (rule sublist_order.order_trans)
qed

lemma strip_strip: "strip (strip l) = strip l"
proof -
  define t where "t = dropWhile is_space l"
  define u where "u = dropWhile is_space (rev t)"
  have s: "strip l = rev u" by (simp add: strip_def t_def u_def)
  have t_head: "t = [] \<or> \<not> is_space (hd t)"
    unfolding t_def using hd_dropWhile[of is_space l] by blast
  have u_head: "u = [] \<or> \<not> is_space (hd u)"
    unfolding u_def using hd_dropWhile[of is_space "rev t"] by blast
  have front: "dropWhile is_space (rev u) = rev u"
  proof (cases "u = []")
    case True
    then show ?thesis by simp
  next
    case False
    have "rev t = takeWhile is_space (rev t) @ u" by (simp add: u_def)
    then have teq: "t = rev u @ rev (takeWhile is_space (rev t))"
      by (metis rev_append rev_rev_ident)
    have "hd t = hd (rev u)"
      by (subst teq) (simp add: False)
    moreover have "t \<noteq> []"
    proof
      assume "t = []"
      with teq False show False by simp
    qed
    ultimately have "\<not> is_space (hd (rev u))" using t_head by simp
    then show ?thesis by (simp add: dropWhile_eq_self_iff)
  qed
  have rear: "dropWhile is_space u = u"
    using u_head by (simp add: dropWhile_eq_self_iff)
  show ?thesis
    by (simp add: s) (simp add: strip_def front rear)
qed

lemma strip_no_newline: "CHR ''\<newline>'' \<notin> set l \<Longrightarrow> CHR ''\<newline>'' \<notin> set (strip l)"
  using set_mono_sublist[OF sublist_strip[of l]] by auto

lemma is_log_line_strip: "is_log_line (strip l) \<Longrightarrow> is_log_line l"
proof -
  assume "is_log_line (strip l)"
  then obtain p where p: "p \<in> set skip_phrases" "sublist p (lower (strip l))"
    by (auto simp: is_log_line_def list_ex_iff py_in_sublist)
  have "sublist (lower (strip l)) (lower l)"
    unfolding lower_def by (rule map_mono_sublist[OF sublist_strip])
  with p(2) have "sublist p (lower l)" by (rule sublist_order.order_trans)
  with p(1) show ?thesis by (auto simp: is_log_line_def list_ex_iff py_in_sublist)
qed

definition kept :: "string \<Rightarrow> bool" where
  \<comment> \<open>the lines the loop of the cleaner appends (after stripping them)\<close>
  "kept line \<longleftrightarrow>
     \<not> is_log_line line \<and> strip line \<noteq> [] \<and> \<not> startswith line ''['' \<and> \<not> startswith line ''##''"

lemma clean_lines_filter: "clean_lines ls = map strip (filter kept ls)"
  by (induction ls) (auto simp: kept_def)

lemma clean_lines_fixed:
  "(\<forall>l\<in>set ls. kept l \<and> strip l = l) \<Longrightarrow> clean_lines ls = ls"
  by (induction ls) (auto simp: kept_def)

lemma format_crew_response_clean_text:
  assumes "\<forall>line\<in>set (py_split s ''\<newline>''). kept line \<and> strip line = line"
  shows "format_crew_response s = s"
proof -
  from assms have "clean_lines (py_split s ''\<newline>'') = py_split s ''\<newline>''"
    by (rule clean_lines_fixed)
  moreover have "py_split s ''\<newline>'' \<noteq> []"
    by (simp add: py_split_def split_aux_not_Nil)
  ultimately show ?thesis
    by (simp add: format_crew_response_def py_join_py_split)
qed

lemma format_crew_response_twice:
  assumes "\<forall>line\<in>set (py_split s ''\<newline>''). kept line \<longrightarrow> kept (strip line)"
  shows "format_crew_response (format_crew_response s) = format_crew_response s"
proof (cases "clean_lines (py_split s ''\<newline>'') = []")
  case True
  then show ?thesis by (simp add: format_crew_response_def)
next
  case False
  let ?cl = "clean_lines (py_split s ''\<newline>'')"
  have r: "format_crew_response s = py_join ''\<newline>'' ?cl"
    using False by (simp add: format_crew_response_def)
  have elems: "kept x \<and> strip x = x \<and> CHR ''\<newline>'' \<notin> set x" if "x \<in> set ?cl" for x
  proof -
    from that obtain line where line: "line \<in> set (py_split s ''\<newline>'')" "kept line" "x = strip line"
      by (auto simp: clean_lines_filter)
    with assms have "kept x" by blast
    moreover have "strip x = x" using line(3) by (simp add: strip_strip)
    moreover have "CHR ''\<newline>'' \<notin> set x"
      using line(1,3) by (simp add: strip_no_newline py_split_no_newline)
    ultimately show ?thesis by blast
  qed
  have "py_split (py_join ''\<newline>'' ?cl) ''\<newline>'' = ?cl"
    using False elems by (intro py_split_py_join) auto
  then have "\<forall>line\<in>set (py_split (py_join ''\<newline>'' ?cl) ''\<newline>''). kept line \<and> strip line = line"
    using elems by simp
  then have "format_crew_response (py_join ''\<newline>'' ?cl) = py_join ''\<newline>'' ?cl"
    by (rule format_crew_response_clean_text)
  with r show ?thesis by simp
qed

text \<open>
  C6, as amended. A text whose lines (split at newlines) each hold no log marker, are not
  empty, have no leading or trailing whitespace and do not start with \<open>[\<close> or \<open>##\<close> is
  returned unchanged by the cleaner. Cleaning twice equals cleaning once for every text
  in which no line that the cleaner keeps starts, once its surrounding whitespace is
  stripped, with \<open>[\<close> or \<open>##\<close>.
\<close>

theorem format_crew_response_idempotent_on_clean_text:
  "((\<forall>line\<in>set (py_split s ''\<newline>'').
        \<not> is_log_line line \<and> line \<noteq> [] \<and> strip line = line \<and>
        \<not> startswith line ''['' \<and> \<not> startswith line ''##'')
      \<longrightarrow> format_crew_response s = s) \<and>
   ((\<forall>line\<in>set (py_split s ''\<newline>'').
        \<not> is_log_line line \<and> strip line \<noteq> [] \<and>
        \<not> startswith line ''['' \<and> \<not> startswith line ''##''
          \<longrightarrow> \<not> startswith (strip line) ''['' \<and> \<not> startswith (strip line) ''##'')
      \<longrightarrow> format_crew_response (format_crew_response s) = format_crew_response s)"
proof (intro conjI impI)
  assume "\<forall>line\<in>set (py_split s ''\<newline>'').
        \<not> is_log_line line \<and> line \<noteq> [] \<and> strip line = line \<and>
        \<not> startswith line ''['' \<and> \<not> startswith line ''##''"
  then have "\<forall>line\<in>set (py_split s ''\<newline>''). kept line \<and> strip line = line"
    by (simp add: kept_def)
  then show "format_crew_response s = s" by (rule format_crew_response_clean_text)
next
  assume h: "\<forall>line\<in>set (py_split s ''\<newline>'').
        \<not> is_log_line line \<and> strip line \<noteq> [] \<and>
        \<not> startswith line ''['' \<and> \<not> startswith line ''##''
          \<longrightarrow> \<not> startswith (strip line) ''['' \<and> \<not> startswith (strip line) ''##''"
  have "\<forall>line\<in>set (py_split s ''\<newline>''). kept line \<longrightarrow> kept (strip line)"
  proof (intro ballI impI)
    fix line
    assume line: "line \<in> set (py_split s ''\<newline>'')" and k: "kept line"
    from k have "\<not> is_log_line (strip line)"
      by (auto simp: kept_def dest: is_log_line_strip)
    moreover from k have "strip (strip line) \<noteq> []"
      by (simp add: kept_def strip_strip)
    moreover from h line k
    have "\<not> startswith (strip line) ''['' \<and> \<not> startswith (strip line) ''##''"
      by (simp add: kept_def)
    ultimately show "kept (strip line)" by (simp add: kept_def)
  qed
  then show "format_crew_response (format_crew_response s) = format_crew_response s"
    by (rule format_crew_response_twice)
qed

lemma format_crew_response_example:
  "format_crew_response ''Agent: thinking\<newline>  Hello there  \<newline>\<newline>[log]\<newline>Done'' = ''Hello there\<newline>Done''"
  by code_simp

theorem format_crew_response_idempotent_on_clean_text_witness:
  "format_crew_response ''Hello there\<newline>Done'' = ''Hello there\<newline>Done'' \<and>
   format_crew_response
     (format_crew_response ''Agent: thinking\<newline>  Hello there  \<newline>\<newline>[log]\<newline>Done'') =
   ''Hello there\<newline>Done''"
proof -
  let ?clean = "''Hello there\<newline>Done''"
  let ?raw = "''Agent: thinking\<newline>  Hello there  \<newline>\<newline>[log]\<newline>Done''"
  have h1: "\<forall>line\<in>set (py_split ?clean ''\<newline>'').
        \<not> is_log_line line \<and> line \<noteq> [] \<and> strip line = line \<and>
        \<not> startswith line ''['' \<and> \<not> startswith line ''##''"
    by code_simp
  have h2: "\<forall>line\<in>set (py_split ?raw ''\<newline>'').
        \<not> is_log_line line \<and> strip line \<noteq> [] \<and>
        \<not> startswith line ''['' \<and> \<not> startswith line ''##''
          \<longrightarrow> \<not> startswith (strip line) ''['' \<and> \<not> startswith (strip line) ''##''"
    by code_simp
  from format_crew_response_idempotent_on_clean_text[of ?clean] h1
  have a: "format_crew_response ?clean = ?clean" by blast
  from format_crew_response_idempotent_on_clean_text[of ?raw] h2
  have "format_crew_response (format_crew_response ?raw) = format_crew_response ?raw" by blast
  then have b: "format_crew_response (format_crew_response ?raw) = ?clean"
    by (simp only: format_crew_response_example)
  from a b show ?thesis by (rule conjI)
qed

text \<open>
  C6 as stated fails. The text \<open>hello\<close>, newline, \<open> [x\<close> has no log-marker line, yet the
  cleaner changes it (the second line loses its leading blank); and cleaning the result
  again drops the second line, which now starts with \<open>[\<close>.
\<close>

theorem format_crew_response_not_idempotent_counterexample:
  "\<not> (\<exists>line\<in>set (py_split ''hello\<newline> [x'' ''\<newline>''). is_log_line line) \<and>
   format_crew_response ''hello\<newline> [x'' = ''hello\<newline>[x'' \<and>
   format_crew_response ''hello\<newline> [x'' \<noteq> ''hello\<newline> [x'' \<and>
   format_crew_response (format_crew_response ''hello\<newline> [x'') = ''hello'' \<and>
   format_crew_response (format_crew_response ''hello\<newline> [x'') \<noteq>
     format_crew_response ''hello\<newline> [x''"
  by code_simp

end
